theory Spec2Isabelle
  imports Complex_Main
begin

section \<open>Capture pipeline (components/FastMode.tsx)\<close>

subsection \<open>Detector output\<close>

text \<open>
  One entry of the array that \<^verbatim>\<open>model.detect(canvas)\<close> resolves to
  (\<^verbatim>\<open>cocoSsd.DetectedObject\<close>). The field \<^verbatim>\<open>class\<close> is called \<open>cls\<close> here,
  \<^verbatim>\<open>class\<close> being reserved. Pixel coordinates and the score are numbers; they are
  kept as rationals and never computed with.
\<close>

record DetectedObject =
  bbox :: "rat \<times> rat \<times> rat \<times> rat"
  cls :: string
  score :: rat

subsection \<open>Summary generation (handleCapture, lines 110--120)\<close>

text \<open>
  \<^verbatim>\<open>new Set(xs)\<close> inserts the elements of \<open>xs\<close> from left to right; an element that is
  already a member is skipped, and iteration (the spread \<^verbatim>\<open>[...set]\<close>) follows insertion
  order. The set is kept as the list of its members in insertion order.
\<close>

definition set_add :: "string list \<Rightarrow> string \<Rightarrow> string list" where
  "set_add members x = (if x \<in> set members then members else members @ [x])"

definition new_Set :: "string list \<Rightarrow> string list" where
  "new_Set xs = foldl set_add [] xs"

text \<open>\<^verbatim>\<open>Array.prototype.join(sep)\<close> on an array of strings.\<close>

fun join :: "string \<Rightarrow> string list \<Rightarrow> string" where
  "join sep [] = []"
| "join sep [x] = x"
| "join sep (x # y # ys) = x @ sep @ join sep (y # ys)"

text \<open>\<^verbatim>\<open>const uniqueLabels = [...new Set(predictions.map(p => p.class))]\<close>\<close>

definition uniqueLabels :: "DetectedObject list \<Rightarrow> string list" where
  "uniqueLabels predictions = new_Set (map cls predictions)"

text \<open>
  The text handed to the speech synthesiser. In the last branch \<^verbatim>\<open>uniqueLabels.pop()\<close>
  removes the last label from the array and returns it; the array has at least two
  members there, so \<open>last\<close> and \<open>butlast\<close> are what \<^verbatim>\<open>pop\<close> returns and leaves.
\<close>

definition summary :: "DetectedObject list \<Rightarrow> string" where
  "summary predictions =
     (let labels = uniqueLabels predictions in
      if length predictions = 0 then ''I could not detect any objects.''
      else if length labels = 1 then ''I see a '' @ labels ! 0 @ ''.''
      else (let lastLabel = last labels; rest = butlast labels in
            ''I see '' @ join '', '' rest @ '', and a '' @ lastLabel @ ''.''))"


text \<open>
  The same dependence in the spec's words: the labels with duplicates removed, each label
  standing where it first occurs. This definition is not taken from the source; it is
  compared with \<open>uniqueLabels\<close> below.
\<close>

fun first_occurrences :: "string list \<Rightarrow> string list" where
  "first_occurrences [] = []"
| "first_occurrences (x # xs) = x # first_occurrences (filter (\<lambda>y. y \<noteq> x) xs)"

text \<open>A detector entry with a given label, for the concrete instances below.\<close>

definition det :: "string \<Rightarrow> DetectedObject" where
  "det l = \<lparr>bbox = (0, 0, 10, 10), cls = l, score = 1 / 2\<rparr>"

subsection \<open>The capture handler as a transition system\<close>

text \<open>Calls on \<^verbatim>\<open>window.speechSynthesis\<close>, in the order they are made.\<close>

datatype speech_call = Cancel | Speak string

text \<open>
  The component state that \<^verbatim>\<open>handleCapture\<close> and \<^verbatim>\<open>handleReset\<close> read and write.
  \<open>videoRef\<close>, \<open>canvasRef\<close> and \<open>model\<close> say whether the reference (the state variable)
  is non-null. \<open>boxes\<close> holds the predictions whose boxes are displayed: the conversion
  of a prediction to the normalised \<^verbatim>\<open>BoundingBox\<close> (lines 126--133) is an
  element-wise map and is not computed here. \<open>speech\<close> and \<open>in_flight\<close> are
  observations added by the model: the calls made on the synthesiser, and the number of
  \<^verbatim>\<open>model.detect\<close> promises that have been created and not yet settled.
\<close>

record FastMode_state =
  videoRef :: bool
  canvasRef :: bool
  model :: bool
  isLoadingModel :: bool
  isDetecting :: bool
  capturedImage :: "string option"
  boxes :: "DetectedObject list"
  error_fast :: "string option"
  speech :: "speech_call list"
  in_flight :: nat

text \<open>The state after the first render: the \<^verbatim>\<open>useState\<close> initial values, both elements mounted.\<close>

definition FastMode_init :: FastMode_state where
  "FastMode_init = \<lparr>videoRef = True, canvasRef = True, model = False, isLoadingModel = True,
     isDetecting = False, capturedImage = None, boxes = [], error_fast = None, speech = [],
     in_flight = 0\<rparr>"

text \<open>
  \<^verbatim>\<open>handleCapture\<close> up to its \<^verbatim>\<open>await model.detect(canvas)\<close> (lines 90--108).
  \<open>has_context\<close> says whether \<^verbatim>\<open>canvas.getContext('2d')\<close> returned a context and
  \<open>dataUrl\<close> is what \<^verbatim>\<open>canvas.toDataURL\<close> returned. Without a context the handler
  falls through to \<^verbatim>\<open>setIsDetecting(false)\<close> (line 142) at once. The handler reads
  \<open>isDetecting\<close> from the committed state: React commits the updates of one click
  handler before it dispatches the next click.
\<close>

definition handleCapture :: "bool \<Rightarrow> string \<Rightarrow> FastMode_state \<Rightarrow> FastMode_state" where
  "handleCapture has_context dataUrl s =
     (if videoRef s \<and> canvasRef s \<and> model s \<and> \<not> isDetecting s then
        (let s1 = s\<lparr>isDetecting := True, boxes := [], speech := speech s @ [Cancel]\<rparr> in
         if has_context
         then s1\<lparr>capturedImage := Some dataUrl, in_flight := in_flight s1 + 1\<rparr>
         else s1\<lparr>isDetecting := False\<rparr>)
      else s)"

text \<open>How the promise of \<^verbatim>\<open>model.detect\<close> settles.\<close>

datatype detect_result = Resolved "DetectedObject list" | Rejected

text \<open>
  The rest of \<^verbatim>\<open>handleCapture\<close> once the promise has settled (lines 110--142): speak
  the summary and show the boxes, or report the failure; then \<^verbatim>\<open>setIsDetecting(false)\<close>.
\<close>

definition handleCapture_settled :: "detect_result \<Rightarrow> FastMode_state \<Rightarrow> FastMode_state" where
  "handleCapture_settled r s =
     (let s1 = (case r of
                  Resolved predictions \<Rightarrow>
                    s\<lparr>speech := speech s @ [Speak (summary predictions)], boxes := predictions\<rparr>
                | Rejected \<Rightarrow> s\<lparr>error_fast := Some ''Object detection failed.''\<rparr>)
      in s1\<lparr>isDetecting := False, in_flight := in_flight s1 - 1\<rparr>)"

text \<open>\<^verbatim>\<open>handleReset\<close> (lines 146--151); the camera stream is not part of the state kept here.\<close>

definition handleReset :: "FastMode_state \<Rightarrow> FastMode_state" where
  "handleReset s = s\<lparr>speech := speech s @ [Cancel], capturedImage := None, boxes := []\<rparr>"

text \<open>
  After every update React renders again: the \<^verbatim>\<open>video\<close> element is mounted exactly
  when no captured image is shown (lines 190--191), the canvas always.
\<close>

definition render_fast :: "FastMode_state \<Rightarrow> FastMode_state" where
  "render_fast s = s\<lparr>videoRef := (capturedImage s = None), canvasRef := True\<rparr>"

text \<open>
  What can happen to the mounted component: the model finishes loading or fails to
  (lines 37--56), the capture handler is invoked, a pending detection settles, the reset
  handler is invoked, \<^verbatim>\<open>startCamera\<close> fails (lines 71--74). \<open>Capture\<close> is not
  restricted to the moments at which the button is shown and enabled, so that what is
  proved rests on the guard of the handler alone. A detection can settle only if one
  is pending.
\<close>

datatype FastMode_event =
    ModelLoaded
  | ModelFailed
  | Capture bool string
  | Settled detect_result
  | Reset
  | CameraFailed

fun step_fast :: "FastMode_state \<Rightarrow> FastMode_event \<Rightarrow> FastMode_state" where
  "step_fast s ModelLoaded = render_fast (s\<lparr>model := True, isLoadingModel := False\<rparr>)"
| "step_fast s ModelFailed =
     render_fast (s\<lparr>error_fast := Some ''Could not load the object detection model. Please try again later.'',
                    isLoadingModel := False\<rparr>)"
| "step_fast s (Capture has_context dataUrl) = render_fast (handleCapture has_context dataUrl s)"
| "step_fast s (Settled r) = (if in_flight s = 0 then s else render_fast (handleCapture_settled r s))"
| "step_fast s Reset = render_fast (handleReset s)"
| "step_fast s CameraFailed =
     render_fast (s\<lparr>error_fast := Some ''Could not access camera. Please check permissions.''\<rparr>)"

definition run_fast :: "FastMode_event list \<Rightarrow> FastMode_state" where
  "run_fast evs = foldl step_fast FastMode_init evs"


section \<open>Live session (components/SceneDescriptorMode.tsx)\<close>

subsection \<open>State\<close>

datatype SessionState = Idle | Connecting | Active | Error | Stopped

text \<open>\<^verbatim>\<open>AudioContext.state\<close>.\<close>

datatype AudioContextState = Suspended | Running | Closed

text \<open>
  An \<^verbatim>\<open>AudioBufferSourceNode\<close> created by the message handler: \<open>start_at\<close> is the
  argument of \<^verbatim>\<open>source.start\<close>, \<open>duration\<close> is \<^verbatim>\<open>audioBuffer.duration\<close>, both in
  seconds. Nodes are objects, told apart by identity; \<open>node_id\<close> numbers them in the
  order of their creation. Times are JavaScript numbers; they are taken as rationals
  here, so that sums are exact.
\<close>

record source_node =
  node_id :: nat
  start_at :: rat
  duration :: rat

text \<open>Which of the two audio contexts.\<close>

datatype context_role = Input | Output

text \<open>
  The calls the component makes on the browser and on the session, in the order they
  are made. The log is an observation added by the model.
\<close>

datatype scene_effect =
    ClearInterval nat
  | StopTracks
  | DisconnectProcessor
  | CloseContext context_role
  | CloseSession
  | NewAudioContext context_role nat
  | Connect
  | CreateScriptProcessor
  | SetInterval nat
  | SourceStart source_node
  | SourceStop source_node

text \<open>
  The React state (\<open>error_scene\<close>, \<open>sessionState\<close>, \<open>transcription\<close>) and the refs
  of the component (lines 17--29). A ref that holds \<^verbatim>\<open>null\<close> is \<open>None\<close>. Of an audio
  context only its \<^verbatim>\<open>state\<close> is kept, of the frame timer its numeric id, of the other
  objects only that they are there. \<open>audioSourcesRef\<close> is the \<^verbatim>\<open>Set\<close> of source nodes
  in insertion order. \<open>nodes_created\<close> and \<open>effects\<close> are observations added by the
  model.
\<close>

record Scene_state =
  error_scene :: "string option"
  sessionState :: SessionState
  transcription :: string
  sessionRef :: "unit option"
  inputAudioContextRef :: "AudioContextState option"
  outputAudioContextRef :: "AudioContextState option"
  mediaStreamRef :: "unit option"
  scriptProcessorRef :: "unit option"
  frameIntervalRef :: "nat option"
  nextAudioStartTimeRef :: rat
  audioSourcesRef :: "source_node list"
  nodes_created :: nat
  effects :: "scene_effect list"

definition Scene_init :: Scene_state where
  "Scene_init = \<lparr>error_scene = None, sessionState = Idle, transcription = [],
     sessionRef = None, inputAudioContextRef = None, outputAudioContextRef = None,
     mediaStreamRef = None, scriptProcessorRef = None, frameIntervalRef = None,
     nextAudioStartTimeRef = 0, audioSourcesRef = [], nodes_created = 0, effects = []\<rparr>"

subsection \<open>cleanup (lines 31--56)\<close>

text \<open>
  One definition for each \<^verbatim>\<open>if\<close> of the function, in the order of the source. A
  number is truthy when it is not zero; an object always is. None of the calls made
  here throws, so there is no error result.
\<close>

definition cleanup_frameInterval :: "Scene_state \<Rightarrow> Scene_state" where
  "cleanup_frameInterval s =
     (case frameIntervalRef s of
        Some t \<Rightarrow>
          if t \<noteq> 0 then s\<lparr>frameIntervalRef := None, effects := effects s @ [ClearInterval t]\<rparr>
          else s
      | None \<Rightarrow> s)"

definition cleanup_mediaStream :: "Scene_state \<Rightarrow> Scene_state" where
  "cleanup_mediaStream s =
     (case mediaStreamRef s of
        Some _ \<Rightarrow> s\<lparr>mediaStreamRef := None, effects := effects s @ [StopTracks]\<rparr>
      | None \<Rightarrow> s)"

definition cleanup_scriptProcessor :: "Scene_state \<Rightarrow> Scene_state" where
  "cleanup_scriptProcessor s =
     (case scriptProcessorRef s of
        Some _ \<Rightarrow> s\<lparr>scriptProcessorRef := None, effects := effects s @ [DisconnectProcessor]\<rparr>
      | None \<Rightarrow> s)"

definition cleanup_inputAudioContext :: "Scene_state \<Rightarrow> Scene_state" where
  "cleanup_inputAudioContext s =
     (case inputAudioContextRef s of
        Some st \<Rightarrow>
          if st \<noteq> Closed
          then s\<lparr>inputAudioContextRef := None, effects := effects s @ [CloseContext Input]\<rparr>
          else s
      | None \<Rightarrow> s)"

definition cleanup_outputAudioContext :: "Scene_state \<Rightarrow> Scene_state" where
  "cleanup_outputAudioContext s =
     (case outputAudioContextRef s of
        Some st \<Rightarrow>
          if st \<noteq> Closed
          then s\<lparr>outputAudioContextRef := None, effects := effects s @ [CloseContext Output]\<rparr>
          else s
      | None \<Rightarrow> s)"

definition cleanup_session :: "Scene_state \<Rightarrow> Scene_state" where
  "cleanup_session s =
     (case sessionRef s of
        Some _ \<Rightarrow> s\<lparr>sessionRef := None, effects := effects s @ [CloseSession]\<rparr>
      | None \<Rightarrow> s)"

definition cleanup :: "Scene_state \<Rightarrow> Scene_state" where
  "cleanup s =
     cleanup_session (cleanup_outputAudioContext (cleanup_inputAudioContext
       (cleanup_scriptProcessor (cleanup_mediaStream (cleanup_frameInterval s)))))"


subsection \<open>Starting the camera and the session (lines 58--74, 83--199)\<close>

text \<open>\<^verbatim>\<open>startCameraAndMic\<close>: \<^verbatim>\<open>getUserMedia\<close> resolves with a stream, or rejects.\<close>

definition startCameraAndMic :: "bool \<Rightarrow> Scene_state \<Rightarrow> Scene_state" where
  "startCameraAndMic granted s =
     (if granted then s\<lparr>mediaStreamRef := Some ()\<rparr>
      else s\<lparr>error_scene := Some ''Could not access camera or microphone. Please check permissions.'',
             sessionState := Error\<rparr>)"

text \<open>
  What the browser and the client library do inside the \<^verbatim>\<open>try\<close> block of
  \<^verbatim>\<open>startSession\<close>: a constructor throws, or \<^verbatim>\<open>ai.live.connect\<close> throws, or all
  succeed. A new audio context comes with the state the browser gives it.
\<close>

datatype start_outcome =
    GenAIThrows
  | InputContextThrows
  | OutputContextThrows AudioContextState
  | ConnectThrows AudioContextState AudioContextState
  | Opened AudioContextState AudioContextState

text \<open>The \<^verbatim>\<open>catch\<close> block of \<^verbatim>\<open>startSession\<close> (lines 194--198).\<close>

definition startSession_failed :: "Scene_state \<Rightarrow> Scene_state" where
  "startSession_failed s =
     s\<lparr>error_scene := Some ''Failed to initialize AI session.'', sessionState := Error\<rparr>"

text \<open>
  \<^verbatim>\<open>startSession\<close>. The callbacks handed to \<^verbatim>\<open>connect\<close> are the functions
  \<open>onopen\<close>, \<open>onmessage_received\<close>, \<open>onerror\<close> and \<open>onclose\<close> below. The first prompt
  (line 193) is sent from a callback of the session promise and is not logged.
\<close>

definition startSession :: "start_outcome \<Rightarrow> Scene_state \<Rightarrow> Scene_state" where
  "startSession outcome s =
     (if mediaStreamRef s = None then
        s\<lparr>error_scene := Some ''Media stream not available.'', sessionState := Error\<rparr>
      else
        (let s1 = s\<lparr>sessionState := Connecting, transcription := []\<rparr> in
         case outcome of
           GenAIThrows \<Rightarrow> startSession_failed s1
         | InputContextThrows \<Rightarrow> startSession_failed s1
         | OutputContextThrows i \<Rightarrow>
             startSession_failed
               (s1\<lparr>inputAudioContextRef := Some i,
                   effects := effects s1 @ [NewAudioContext Input 16000]\<rparr>)
         | ConnectThrows i out \<Rightarrow>
             startSession_failed
               (s1\<lparr>inputAudioContextRef := Some i, outputAudioContextRef := Some out,
                   nextAudioStartTimeRef := 0,
                   effects := effects s1 @ [NewAudioContext Input 16000, NewAudioContext Output 24000]\<rparr>)
         | Opened i out \<Rightarrow>
             s1\<lparr>inputAudioContextRef := Some i, outputAudioContextRef := Some out,
                nextAudioStartTimeRef := 0, sessionRef := Some (),
                effects := effects s1 @
                  [NewAudioContext Input 16000, NewAudioContext Output 24000, Connect]\<rparr>))"

text \<open>
  \<^verbatim>\<open>onopen\<close> (lines 109--151); \<open>timer\<close> is the id \<^verbatim>\<open>window.setInterval\<close> returns.
  The audio and frame callbacks installed here only send data to the session; they
  assign no ref and no state.
\<close>

definition onopen :: "nat \<Rightarrow> Scene_state \<Rightarrow> Scene_state" where
  "onopen timer s =
     (if inputAudioContextRef s = None \<or> mediaStreamRef s = None then s
      else s\<lparr>scriptProcessorRef := Some (), frameIntervalRef := Some timer,
             sessionState := Active,
             effects := effects s @ [CreateScriptProcessor, SetInterval timer]\<rparr>)"

subsection \<open>onmessage (lines 152--179)\<close>

text \<open>
  A part of a model turn, as far as the handler reads it: the string
  \<^verbatim>\<open>inlineData?.data\<close>, if the part has one. A model turn (\<^verbatim>\<open>Content\<close> in the client
  library) has an array of parts, or none: \<^verbatim>\<open>parts\<close> is an optional field.
\<close>

type_synonym Part = "string option"

datatype Content = Content (parts: "Part list option")

text \<open>
  What the handler reads of a message: the text of
  \<^verbatim>\<open>serverContent?.outputTranscription\<close> when that is present,
  \<^verbatim>\<open>serverContent?.modelTurn\<close> when that is present, and whether
  \<^verbatim>\<open>serverContent?.interrupted\<close> is set.
\<close>

record LiveServerMessage =
  outputTranscription :: "string option"
  modelTurn :: "Content option"
  interrupted :: bool

text \<open>The exception that indexing \<^verbatim>\<open>undefined\<close> raises.\<close>

datatype js_error = TypeError

text \<open>
  Line 158, \<^verbatim>\<open>message.serverContent?.modelTurn?.parts[0]?.inlineData?.data\<close>. Without
  a model turn the chain gives \<^verbatim>\<open>undefined\<close>. With a model turn, \<^verbatim>\<open>parts\<close> is indexed
  with no \<^verbatim>\<open>?.\<close> before the index: a turn without parts raises \<^verbatim>\<open>TypeError\<close>; an
  empty array gives \<^verbatim>\<open>undefined\<close>; otherwise the chain gives what the first part holds.
\<close>

definition base64Audio :: "LiveServerMessage \<Rightarrow> js_error + string option" where
  "base64Audio message =
     (case modelTurn message of
        None \<Rightarrow> Inr None
      | Some turn \<Rightarrow>
          (case parts turn of
             None \<Rightarrow> Inl TypeError
           | Some [] \<Rightarrow> Inr None
           | Some (part # _) \<Rightarrow> Inr part))"

text \<open>A string is truthy when it is there and not empty.\<close>

definition truthy :: "string option \<Rightarrow> bool" where
  "truthy x = (case x of None \<Rightarrow> False | Some str \<Rightarrow> str \<noteq> [])"

text \<open>The last \<^verbatim>\<open>if\<close> of the handler (lines 172--178).\<close>

definition onmessage_interrupted :: "LiveServerMessage \<Rightarrow> Scene_state \<Rightarrow> Scene_state" where
  "onmessage_interrupted message s =
     (if interrupted message then
        s\<lparr>effects := effects s @ map SourceStop (audioSourcesRef s),
          audioSourcesRef := [], nextAudioStartTimeRef := 0\<rparr>
      else s)"

text \<open>
  How far a run of the handler has come: to its end; to \<^verbatim>\<open>await decodeAudioData(...)\<close>,
  where it waits for the decoder; or to an exception, which ends it where it is raised.
\<close>

datatype handler_status = Finished | Awaiting | Threw js_error

text \<open>
  The handler from its start to \<^verbatim>\<open>await decodeAudioData(...)\<close> (lines 153--162), or to
  its end when the message has no audio or there is no output context, or to the
  exception of line 158, which is raised after the transcript has been appended and
  before anything is scheduled or stopped. \<open>currentTime\<close> is \<^verbatim>\<open>ctx.currentTime\<close> as
  read on line 161.
\<close>

definition onmessage_received ::
    "LiveServerMessage \<Rightarrow> rat \<Rightarrow> Scene_state \<Rightarrow> Scene_state \<times> handler_status" where
  "onmessage_received message currentTime s =
     (let s1 = (case outputTranscription message of
                  Some text \<Rightarrow> s\<lparr>transcription := transcription s @ text\<rparr>
                | None \<Rightarrow> s)
      in case base64Audio message of
           Inl e \<Rightarrow> (s1, Threw e)
         | Inr audio \<Rightarrow>
             if truthy audio \<and> outputAudioContextRef s1 \<noteq> None
             then (s1\<lparr>nextAudioStartTimeRef := max (nextAudioStartTimeRef s1) currentTime\<rparr>,
                   Awaiting)
             else (onmessage_interrupted message s1, Finished))"

text \<open>
  The handler from the moment the decoder has delivered a buffer of duration \<open>d\<close> to its
  end (lines 163--178). \<^verbatim>\<open>decodeAudioData\<close> and \<^verbatim>\<open>decode\<close> belong to the module
  \<^verbatim>\<open>utils/audio\<close>, which is not modelled; the duration of the buffer they deliver
  is an input here. Should the decoder reject, the handler ends at the \<^verbatim>\<open>await\<close> and
  this half never runs: in the transition system below that is a \<open>MessageReceived\<close>
  with no \<open>AudioDecoded\<close> after it.
\<close>

definition onmessage_decoded :: "LiveServerMessage \<Rightarrow> rat \<Rightarrow> Scene_state \<Rightarrow> Scene_state" where
  "onmessage_decoded message d s =
     (let source = \<lparr>node_id = nodes_created s, start_at = nextAudioStartTimeRef s, duration = d\<rparr>;
          s1 = s\<lparr>nodes_created := nodes_created s + 1,
                 effects := effects s @ [SourceStart source],
                 nextAudioStartTimeRef := nextAudioStartTimeRef s + d,
                 audioSourcesRef := audioSourcesRef s @ [source]\<rparr>
      in onmessage_interrupted message s1)"

text \<open>
  The handler run in one piece, with nothing in between. \<open>decoded\<close> is what the decoder
  does if it is asked: it delivers a buffer of a duration, or it rejects (\<open>None\<close>), and
  then the handler ends at the \<^verbatim>\<open>await\<close>.
\<close>

definition onmessage ::
    "LiveServerMessage \<Rightarrow> rat \<Rightarrow> rat option \<Rightarrow> Scene_state \<Rightarrow> Scene_state" where
  "onmessage message currentTime decoded s =
     (case onmessage_received message currentTime s of
        (s1, Awaiting) \<Rightarrow>
          (case decoded of Some d \<Rightarrow> onmessage_decoded message d s1 | None \<Rightarrow> s1)
      | (s1, _) \<Rightarrow> s1)"

text \<open>The listener for \<^verbatim>\<open>ended\<close> that line 166 installs on a source.\<close>

definition source_ended :: "source_node \<Rightarrow> Scene_state \<Rightarrow> Scene_state" where
  "source_ended source s = s\<lparr>audioSourcesRef := removeAll source (audioSourcesRef s)\<rparr>"

subsection \<open>onerror, onclose, stopSession (lines 180--189, 201--204)\<close>

definition onerror :: "Scene_state \<Rightarrow> Scene_state" where
  "onerror s =
     cleanup (s\<lparr>error_scene := Some ''An error occurred with the connection.'',
                sessionState := Error\<rparr>)"

definition onclose :: "Scene_state \<Rightarrow> Scene_state" where
  "onclose s = cleanup (s\<lparr>sessionState := Stopped\<rparr>)"

definition stopSession :: "Scene_state \<Rightarrow> Scene_state" where
  "stopSession s = (cleanup s)\<lparr>sessionState := Stopped\<rparr>"


subsection \<open>The component as a transition system\<close>

text \<open>
  What can happen to the mounted component. \<open>MediaSettled\<close>: the promise of
  \<^verbatim>\<open>getUserMedia\<close> settles. \<open>StartSession\<close> and \<open>StopSession\<close>: the buttons.
  \<open>Onopen\<close>, \<open>MessageReceived\<close>, \<open>Onerror\<close>, \<open>Onclose\<close>: the session invokes a
  callback. \<open>AudioDecoded\<close>: the decoder delivers, and the handler of that message runs
  on. \<open>SourceEnded\<close>: a source fires \<^verbatim>\<open>ended\<close>. \<open>ContextStateChanged\<close>: the browser
  suspends or resumes a context. \<open>Back\<close>: the back button, that is \<^verbatim>\<open>stopSession\<close>,
  then the unmount that \<^verbatim>\<open>setMode(AppMode.HOME)\<close> brings about, which runs \<^verbatim>\<open>cleanup\<close>
  (lines 78--80, 219). The events are not restricted to the order in which a real
  session produces them.
\<close>

datatype Scene_event =
    MediaSettled bool
  | StartSession start_outcome
  | Onopen nat
  | MessageReceived LiveServerMessage rat
  | AudioDecoded LiveServerMessage rat
  | SourceEnded source_node
  | Onerror
  | Onclose
  | StopSession
  | Back
  | ContextStateChanged context_role AudioContextState

text \<open>A context that is closed stays closed; one that is not takes the new state.\<close>

definition context_state_changed :: "AudioContextState \<Rightarrow> AudioContextState option \<Rightarrow> AudioContextState option" where
  "context_state_changed st ref =
     (case ref of
        Some old \<Rightarrow> if old = Closed then Some old else Some st
      | None \<Rightarrow> None)"

fun step_scene :: "Scene_state \<Rightarrow> Scene_event \<Rightarrow> Scene_state" where
  "step_scene s (MediaSettled granted) = startCameraAndMic granted s"
| "step_scene s (StartSession outcome) = startSession outcome s"
| "step_scene s (Onopen timer) = onopen timer s"
| "step_scene s (MessageReceived message currentTime) = fst (onmessage_received message currentTime s)"
| "step_scene s (AudioDecoded message d) = onmessage_decoded message d s"
| "step_scene s (SourceEnded source) = source_ended source s"
| "step_scene s Onerror = onerror s"
| "step_scene s Onclose = onclose s"
| "step_scene s StopSession = stopSession s"
| "step_scene s Back = cleanup (stopSession s)"
| "step_scene s (ContextStateChanged Input st) =
     s\<lparr>inputAudioContextRef := context_state_changed st (inputAudioContextRef s)\<rparr>"
| "step_scene s (ContextStateChanged Output st) =
     s\<lparr>outputAudioContextRef := context_state_changed st (outputAudioContextRef s)\<rparr>"

text \<open>
  What the browser guarantees of the values it hands in: a context is not born closed
  and does not become closed unless \<^verbatim>\<open>close\<close> is called on it, which only \<^verbatim>\<open>cleanup\<close>
  does; the id of a timer is greater than zero.
\<close>

fun browser_ok :: "Scene_event \<Rightarrow> bool" where
  "browser_ok (StartSession (OutputContextThrows i)) = (i \<noteq> Closed)"
| "browser_ok (StartSession (ConnectThrows i out)) = (i \<noteq> Closed \<and> out \<noteq> Closed)"
| "browser_ok (StartSession (Opened i out)) = (i \<noteq> Closed \<and> out \<noteq> Closed)"
| "browser_ok (Onopen timer) = (0 < timer)"
| "browser_ok (ContextStateChanged role st) = (st \<noteq> Closed)"
| "browser_ok _ = True"

definition run_scene :: "Scene_event list \<Rightarrow> Scene_state" where
  "run_scene evs = foldl step_scene Scene_init evs"

text \<open>The source nodes on which \<^verbatim>\<open>start\<close> was called, in the order of the calls.\<close>

fun started :: "scene_effect list \<Rightarrow> source_node list" where
  "started [] = []"
| "started (SourceStart n # es) = n # started es"
| "started (_ # es) = started es"

text \<open>The source nodes on which \<^verbatim>\<open>stop\<close> was called.\<close>

fun stopped :: "scene_effect list \<Rightarrow> source_node list" where
  "stopped [] = []"
| "stopped (SourceStop n # es) = n # stopped es"
| "stopped (_ # es) = stopped es"

text \<open>
  Each playback window \<open>[start_at, start_at + duration)\<close> begins no earlier than the
  window before it begins, and no earlier than the window before it ends.
\<close>

fun sequential :: "source_node list \<Rightarrow> bool" where
  "sequential (a # b # ns) =
     (start_at a \<le> start_at b \<and> start_at a + duration a \<le> start_at b \<and> sequential (b # ns))"
| "sequential _ = True"

text \<open>
  The events that do not set the next start time back to zero: every event but a new
  \<^verbatim>\<open>startSession\<close> (line 98) and a step of the handler of a message that carries the
  interruption signal (line 177). The duration of a decoded buffer is not negative, as
  that of an \<^verbatim>\<open>AudioBuffer\<close> never is.
\<close>

fun steady :: "Scene_event \<Rightarrow> bool" where
  "steady (StartSession outcome) = False"
| "steady (MessageReceived message currentTime) = (\<not> interrupted message)"
| "steady (AudioDecoded message d) = (\<not> interrupted message \<and> 0 \<le> d)"
| "steady _ = True"


section \<open>Navigation (components/MapsMode.tsx)\<close>

subsection \<open>State\<close>

text \<open>\<^verbatim>\<open>PermissionStatus.state\<close>, as the browser reports it.\<close>

datatype PermissionState = PermissionGranted | PermissionDenied | PermissionPrompt

text \<open>The values of the state variable \<^verbatim>\<open>locationPermission\<close> (line 31).\<close>

datatype LocationPermission = Checking | Prompt | Granted | Denied

fun of_PermissionState :: "PermissionState \<Rightarrow> LocationPermission" where
  "of_PermissionState PermissionGranted = Granted"
| "of_PermissionState PermissionDenied = Denied"
| "of_PermissionState PermissionPrompt = Prompt"

text \<open>
  The calls the component makes on the location and permission interfaces of the
  browser: \<^verbatim>\<open>permissions.query\<close> (line 76), \<^verbatim>\<open>getCurrentPosition\<close> and
  \<^verbatim>\<open>watchPosition\<close> of the location effect (lines 107, 109), \<^verbatim>\<open>getCurrentPosition\<close>
  of \<^verbatim>\<open>requestLocationPermission\<close> (line 124), and \<^verbatim>\<open>clearWatch\<close> (line 116).
\<close>

datatype location_call =
    PermissionsQuery
  | GetCurrentPosition
  | WatchPosition
  | RequestCurrentPosition
  | ClearWatch nat

text \<open>
  The destination is the one string of this component whose characters are looked at
  (by \<^verbatim>\<open>trim\<close>); it is kept as the list of its UTF-16 code units, as the language has
  it.
\<close>

type_synonym code_units = "nat list"

text \<open>
  The React state and the refs of the component (lines 25--38). \<open>videoRef_maps\<close>,
  \<open>canvasRef_maps\<close> and \<open>aiRef\<close> say whether the ref is non-null. \<open>speech_maps\<close> and
  \<open>location_calls\<close> log the calls on the synthesiser and on the location interfaces,
  \<open>onchange_registered\<close> says whether \<^verbatim>\<open>permissionStatus.onchange\<close> has been set
  (line 78), and \<open>cameras_awaited\<close> counts the invocations of
  \<^verbatim>\<open>handleStartNavigation\<close> that wait for \<^verbatim>\<open>startCamera\<close>; the four are observations
  added by the model.
\<close>

record Maps_state =
  destination :: code_units
  isNavigating :: bool
  instruction :: string
  currentLocation :: "(rat \<times> rat) option"
  error_maps :: "string option"
  isLoading :: bool
  locationPermission :: LocationPermission
  videoRef_maps :: bool
  canvasRef_maps :: bool
  intervalRef :: "nat option"
  aiRef :: bool
  locationWatcherId :: "nat option"
  isNavigatingRef :: bool
  speech_maps :: "speech_call list"
  location_calls :: "location_call list"
  onchange_registered :: bool
  cameras_awaited :: nat

text \<open>The state at the first render (the \<^verbatim>\<open>useState\<close> and \<^verbatim>\<open>useRef\<close> initial values).\<close>

definition Maps_init :: Maps_state where
  "Maps_init = \<lparr>destination = [], isNavigating = False,
     instruction = ''Enter a destination to begin.'', currentLocation = None, error_maps = None,
     isLoading = True, locationPermission = Checking, videoRef_maps = False,
     canvasRef_maps = False, intervalRef = None, aiRef = False, locationWatcherId = None,
     isNavigatingRef = False, speech_maps = [], location_calls = [], onchange_registered = False,
     cameras_awaited = 0\<rparr>"

subsection \<open>What is rendered (lines 246--337)\<close>

text \<open>
  The four screens, with what each shows of the state: the loading text; the error
  paragraph of the other three (\<^verbatim>\<open>{error && <p>...}\<close>, shown when the string is there
  and not empty); on the navigation screen also whether the video is mounted and the
  instruction.
\<close>

datatype Maps_view =
    Loading string
  | LocationRequired "string option"
  | LocationAccessDenied "string option"
  | MapsNavigation "string option" bool string

definition shown_error :: "Maps_state \<Rightarrow> string option" where
  "shown_error s = (case error_maps s of None \<Rightarrow> None | Some e \<Rightarrow> if e = [] then None else Some e)"

definition render_maps :: "Maps_state \<Rightarrow> Maps_view" where
  "render_maps s =
     (if isLoading s \<or> locationPermission s = Checking then
        Loading (if locationPermission s = Checking then ''Checking permissions...''
                 else ''Getting your location...'')
      else if locationPermission s = Prompt then LocationRequired (shown_error s)
      else if locationPermission s = Denied then LocationAccessDenied (shown_error s)
      else MapsNavigation (shown_error s) (isNavigating s) (instruction s))"

text \<open>The controls of each screen that have a handler.\<close>

datatype Maps_control = BackButton | EnableLocationButton | DestinationInput | StartButton | StopButton

fun controls :: "Maps_view \<Rightarrow> Maps_control list" where
  "controls (Loading _) = []"
| "controls (LocationRequired _) = [BackButton, EnableLocationButton]"
| "controls (LocationAccessDenied _) = [BackButton]"
| "controls (MapsNavigation _ _ _) = [BackButton, DestinationInput, StartButton, StopButton]"

text \<open>
  What React does after a handler has updated the state: it renders, which mounts the
  video and the canvas exactly on the navigation screen while navigating (lines
  298--303), and runs the effect of lines 40--42, which copies \<open>isNavigating\<close> into the
  ref. This is done before the next event is handled.
\<close>

definition commit :: "Maps_state \<Rightarrow> Maps_state" where
  "commit s =
     (let mounted = (case render_maps s of MapsNavigation _ navigating _ \<Rightarrow> navigating | _ \<Rightarrow> False)
      in s\<lparr>videoRef_maps := mounted, canvasRef_maps := mounted, isNavigatingRef := isNavigating s\<rparr>)"

subsection \<open>Location permission (lines 67--136)\<close>

text \<open>
  How \<^verbatim>\<open>checkLocationPermission\<close> goes: the browser has no \<^verbatim>\<open>navigator.geolocation\<close>,
  or \<^verbatim>\<open>navigator.permissions.query\<close> fails, or it resolves to a status.
\<close>

datatype permission_check = GeolocationUnsupported | QueryFailed | QueryResolved PermissionState

text \<open>
  The effect of lines 91--120, run when \<open>locationPermission\<close> has changed: first the
  cleanup of its previous run, then its body. \<open>watch\<close> is the id that
  \<^verbatim>\<open>watchPosition\<close> returns if it is called.
\<close>

definition location_effect_cleanup :: "Maps_state \<Rightarrow> Maps_state" where
  "location_effect_cleanup s =
     (case locationWatcherId s of
        Some w \<Rightarrow>
          if w \<noteq> 0
          then s\<lparr>locationWatcherId := None, location_calls := location_calls s @ [ClearWatch w]\<rparr>
          else s
      | None \<Rightarrow> s)"

definition location_effect :: "nat \<Rightarrow> Maps_state \<Rightarrow> Maps_state" where
  "location_effect watch s =
     (if locationPermission s = Granted then
        s\<lparr>isLoading := True, locationWatcherId := Some watch,
          location_calls := location_calls s @ [GetCurrentPosition, WatchPosition]\<rparr>
      else s\<lparr>isLoading := False\<rparr>)"

text \<open>\<^verbatim>\<open>setLocationPermission(p)\<close> and what React then does; nothing when the value is the same.\<close>

definition setLocationPermission :: "LocationPermission \<Rightarrow> nat \<Rightarrow> Maps_state \<Rightarrow> Maps_state" where
  "setLocationPermission p watch s =
     (if p = locationPermission s then s
      else location_effect watch (location_effect_cleanup (s\<lparr>locationPermission := p\<rparr>)))"

text \<open>
  The mount: the effect of lines 91--120 runs once with \<open>locationPermission\<close> still
  \<open>Checking\<close>, the effect of lines 45--47 creates the client, and
  \<^verbatim>\<open>checkLocationPermission\<close> runs to its end.
\<close>

definition checkLocationPermission :: "permission_check \<Rightarrow> nat \<Rightarrow> Maps_state \<Rightarrow> Maps_state" where
  "checkLocationPermission check watch s =
     (case check of
        GeolocationUnsupported \<Rightarrow>
          setLocationPermission Denied watch
            (s\<lparr>error_maps := Some ''Geolocation is not supported by your browser.''\<rparr>)
      | QueryResolved st \<Rightarrow>
          setLocationPermission (of_PermissionState st) watch
            (s\<lparr>location_calls := location_calls s @ [PermissionsQuery],
               onchange_registered := True\<rparr>)
      | QueryFailed \<Rightarrow>
          setLocationPermission Prompt watch
            (s\<lparr>location_calls := location_calls s @ [PermissionsQuery]\<rparr>))"

definition mount :: "permission_check \<Rightarrow> nat \<Rightarrow> Maps_state" where
  "mount check watch =
     commit (checkLocationPermission check watch (location_effect watch (Maps_init\<lparr>aiRef := True\<rparr>)))"

text \<open>The callbacks given to \<^verbatim>\<open>getCurrentPosition\<close> and \<^verbatim>\<open>watchPosition\<close> (lines 94--105).\<close>

definition successCallback :: "rat \<Rightarrow> rat \<Rightarrow> Maps_state \<Rightarrow> Maps_state" where
  "successCallback lat lng s =
     s\<lparr>currentLocation := Some (lat, lng), isLoading := False, error_maps := None\<rparr>"

definition errorCallback :: "Maps_state \<Rightarrow> Maps_state" where
  "errorCallback s =
     s\<lparr>error_maps := Some ''Unable to retrieve your location. Please check device settings.'',
       isLoading := False\<rparr>"

text \<open>\<^verbatim>\<open>requestLocationPermission\<close> (lines 123--136) and its error callback.\<close>

definition requestLocationPermission :: "Maps_state \<Rightarrow> Maps_state" where
  "requestLocationPermission s = s\<lparr>location_calls := location_calls s @ [RequestCurrentPosition]\<rparr>"

definition requestLocationPermission_error :: "bool \<Rightarrow> Maps_state \<Rightarrow> Maps_state" where
  "requestLocationPermission_error permission_denied s =
     (if permission_denied
      then s\<lparr>error_maps := Some ''Location permission denied. Please enable it in your browser settings.''\<rparr>
      else s\<lparr>error_maps := Some ''Unable to retrieve your location.''\<rparr>)"


subsection \<open>The navigation loop (lines 49--64, 139--244)\<close>

text \<open>\<^verbatim>\<open>speak\<close> (lines 49--53).\<close>

definition speak :: "string \<Rightarrow> Maps_state \<Rightarrow> Maps_state" where
  "speak text s = s\<lparr>speech_maps := speech_maps s @ [Cancel, Speak text]\<rparr>"

text \<open>
  \<^verbatim>\<open>cleanup\<close> of this component (lines 55--64). Stopping the tracks of the video
  leaves the state kept here as it is.
\<close>

definition cleanup_maps :: "Maps_state \<Rightarrow> Maps_state" where
  "cleanup_maps s =
     (let s1 = (case intervalRef s of
                  Some t \<Rightarrow> if t \<noteq> 0 then s\<lparr>intervalRef := None\<rparr> else s
                | None \<Rightarrow> s)
      in s1\<lparr>speech_maps := speech_maps s1 @ [Cancel]\<rparr>)"

text \<open>
  \<^verbatim>\<open>!destination.trim()\<close>: the destination consists of white space only.
  \<^verbatim>\<open>String.prototype.trim\<close> strips the code units that are white space or line
  terminators of the language: tab, line feed, vertical tab, form feed, carriage
  return, space, no-break space, the space separators of Unicode (U+1680,
  U+2000--U+200A, U+202F, U+205F, U+3000), the line and paragraph separators
  (U+2028, U+2029) and the byte order mark (U+FEFF).
\<close>

definition is_space :: "nat \<Rightarrow> bool" where
  "is_space c =
     (c \<in> set [0x09, 0x0A, 0x0B, 0x0C, 0x0D, 0x20, 0xA0, 0x1680, 0x2028, 0x2029, 0x202F, 0x205F,
                0x3000, 0xFEFF]
      \<or> (0x2000 \<le> c \<and> c \<le> 0x200A))"

definition blank :: "code_units \<Rightarrow> bool" where
  "blank str = list_all is_space str"

text \<open>\<^verbatim>\<open>handleStartNavigation\<close> up to \<^verbatim>\<open>await startCamera()\<close> (lines 217--224).\<close>

definition handleStartNavigation :: "Maps_state \<Rightarrow> Maps_state" where
  "handleStartNavigation s =
     (if blank (destination s) \<or> currentLocation s = None
      then s\<lparr>error_maps := Some ''Please enter a destination and enable location.''\<rparr>
      else s\<lparr>error_maps := None, isNavigating := True, cameras_awaited := cameras_awaited s + 1\<rparr>)"

text \<open>
  The rest of \<^verbatim>\<open>handleStartNavigation\<close>, once \<^verbatim>\<open>startCamera\<close> (lines 139--150) has
  come back, with or without a stream (lines 225--232).
\<close>

definition handleStartNavigation_camera :: "bool \<Rightarrow> Maps_state \<Rightarrow> Maps_state" where
  "handleStartNavigation_camera camera_ok s =
     (let s1 = (if camera_ok then s
                else s\<lparr>error_maps := Some ''Could not access camera. Please check permissions.''\<rparr>)
      in speak ''Starting navigation...''
           (s1\<lparr>instruction := ''Starting navigation...'', cameras_awaited := cameras_awaited s1 - 1\<rparr>))"

text \<open>
  \<^verbatim>\<open>getNavigationInstruction\<close> has three parts, with \<^verbatim>\<open>await\<close> between them. The
  first (lines 152--169) checks the refs and encodes a frame; it changes no state, and
  \<open>getNavigationInstruction_guard\<close> says whether it goes on. \<open>frame_ready\<close> says that
  the video has data (\<^verbatim>\<open>readyState >= 2\<close>) and that the canvas gave a context and a
  blob. \<^verbatim>\<open>currentLocation\<close> is read from the state: it is never set back to
  \<^verbatim>\<open>null\<close>, so the value the closure holds is \<^verbatim>\<open>null\<close> only if the state is. The
  second part (line 171) announces the request.
\<close>

definition getNavigationInstruction_guard :: "bool \<Rightarrow> Maps_state \<Rightarrow> bool" where
  "getNavigationInstruction_guard frame_ready s =
     (\<not> (\<not> aiRef s \<or> currentLocation s = None \<or> \<not> videoRef_maps s \<or> \<not> canvasRef_maps s)
      \<and> frame_ready)"

definition getNavigationInstruction_request :: "Maps_state \<Rightarrow> Maps_state" where
  "getNavigationInstruction_request s = s\<lparr>instruction := ''Thinking...''\<rparr>"

text \<open>How the request of \<^verbatim>\<open>generateContent\<close> ends: with the text of a response, or with an exception.\<close>

datatype ai_response = Success string | Failure

text \<open>The third part of \<^verbatim>\<open>getNavigationInstruction\<close>, once the request has ended (lines 202--214).\<close>

definition getNavigationInstruction_response :: "ai_response \<Rightarrow> Maps_state \<Rightarrow> Maps_state" where
  "getNavigationInstruction_response r s =
     (case r of
        Success newInstruction \<Rightarrow>
          if isNavigatingRef s then speak newInstruction (s\<lparr>instruction := newInstruction\<rparr>) else s
      | Failure \<Rightarrow>
          if isNavigatingRef s
          then speak ''Sorry, I couldn't get the next instruction.''
                 (s\<lparr>instruction := ''Sorry, I couldn't get the next instruction.''\<rparr>)
          else s)"

text \<open>\<^verbatim>\<open>handleStopNavigation\<close> (lines 235--239).\<close>

definition handleStopNavigation :: "Maps_state \<Rightarrow> Maps_state" where
  "handleStopNavigation s =
     cleanup_maps (s\<lparr>isNavigating := False,
                     instruction := ''Navigation stopped. Enter a destination to begin again.''\<rparr>)"

text \<open>
  \<^verbatim>\<open>handleBack\<close> (lines 241--244): \<^verbatim>\<open>cleanup\<close>, then the unmount that
  \<^verbatim>\<open>setMode(AppMode.HOME)\<close> brings about, which runs the cleanup of the location effect.
\<close>

definition handleBack :: "Maps_state \<Rightarrow> Maps_state" where
  "handleBack s = location_effect_cleanup (cleanup_maps s)"

subsection \<open>The component as a transition system\<close>

text \<open>
  What can happen to the component once it is mounted. \<open>PermissionChanged\<close>: the browser
  fires \<^verbatim>\<open>permissionStatus.onchange\<close>. \<open>PositionFound\<close>, \<open>PositionFailed\<close>: a callback
  of the location requests of lines 107--109. \<open>EnableLocationFailed\<close>: the error callback
  of \<^verbatim>\<open>requestLocationPermission\<close>. \<open>Clicked\<close>: the user operates a control.
  \<open>DestinationTyped\<close>: the user edits the input. \<open>CameraSettled\<close>: \<^verbatim>\<open>startCamera\<close> has
  come back inside \<^verbatim>\<open>handleStartNavigation\<close>. \<open>StartTimeoutFired\<close>: the timeout of lines
  229--232, with the id of the interval it creates. \<open>FrameEncoded\<close>: a call of
  \<^verbatim>\<open>getNavigationInstruction\<close>, made by that timeout or by the interval, has passed its
  guard and reaches line 171. \<open>Responded\<close>: the request of such a call ends. A control can
  be operated only on a screen that has it. A callback can be invoked only after the
  call that hands it over: the position callbacks after \<^verbatim>\<open>watchPosition\<close>, the error
  callback of \<^verbatim>\<open>requestLocationPermission\<close> after that function has run, the rest of
  \<^verbatim>\<open>handleStartNavigation\<close> while an invocation of it waits for the camera. Beyond
  that the events are not restricted to the order in which a real run produces them.
  After each event React commits.
\<close>

datatype Maps_event =
    PermissionChanged PermissionState nat
  | PositionFound rat rat
  | PositionFailed
  | EnableLocationFailed bool
  | Clicked Maps_control
  | DestinationTyped code_units
  | CameraSettled bool
  | StartTimeoutFired nat
  | FrameEncoded
  | Responded ai_response

fun handle_control :: "Maps_control \<Rightarrow> Maps_state \<Rightarrow> Maps_state" where
  "handle_control BackButton s = handleBack s"
| "handle_control EnableLocationButton s = requestLocationPermission s"
| "handle_control DestinationInput s = s"
| "handle_control StartButton s =
     (if destination s = [] \<or> currentLocation s = None then s else handleStartNavigation s)"
| "handle_control StopButton s = handleStopNavigation s"

fun handle_maps :: "Maps_state \<Rightarrow> Maps_event \<Rightarrow> Maps_state" where
  "handle_maps s (PermissionChanged st watch) =
     (if onchange_registered s then setLocationPermission (of_PermissionState st) watch s else s)"
| "handle_maps s (PositionFound lat lng) =
     (if WatchPosition \<in> set (location_calls s) then successCallback lat lng s else s)"
| "handle_maps s PositionFailed =
     (if WatchPosition \<in> set (location_calls s) then errorCallback s else s)"
| "handle_maps s (EnableLocationFailed permission_denied) =
     (if RequestCurrentPosition \<in> set (location_calls s)
      then requestLocationPermission_error permission_denied s else s)"
| "handle_maps s (Clicked c) = (if c \<in> set (controls (render_maps s)) then handle_control c s else s)"
| "handle_maps s (DestinationTyped str) =
     (if DestinationInput \<in> set (controls (render_maps s)) then s\<lparr>destination := str\<rparr> else s)"
| "handle_maps s (CameraSettled camera_ok) =
     (if cameras_awaited s = 0 then s else handleStartNavigation_camera camera_ok s)"
| "handle_maps s (StartTimeoutFired timer) = s\<lparr>intervalRef := Some timer\<rparr>"
| "handle_maps s FrameEncoded = getNavigationInstruction_request s"
| "handle_maps s (Responded r) = getNavigationInstruction_response r s"

definition step_maps :: "Maps_state \<Rightarrow> Maps_event \<Rightarrow> Maps_state" where
  "step_maps s e = commit (handle_maps s e)"

text \<open>The user starts a navigation.\<close>

fun starts_navigation :: "Maps_event \<Rightarrow> bool" where
  "starts_navigation (Clicked StartButton) = True"
| "starts_navigation _ = False"

text \<open>The browser reports a change of the permission.\<close>

fun permission_change :: "Maps_event \<Rightarrow> bool" where
  "permission_change (PermissionChanged _ _) = True"
| "permission_change _ = False"


section \<open>Invariants and concrete instances used below\<close>

text \<open>
  Of the capture pipeline: the number of pending detections is one while \<open>isDetecting\<close>
  is set and zero otherwise, and the refs are as the last render left them.
\<close>

definition fast_inv :: "FastMode_state \<Rightarrow> bool" where
  "fast_inv s \<longleftrightarrow> in_flight s = (if isDetecting s then 1 else 0) \<and> render_fast s = s"

text \<open>The capture pipeline with the model loaded and one detection pending.\<close>

definition detecting :: FastMode_state where
  "detecting = run_fast [ModelLoaded, Capture True ''data:image/png;base64,iVBORw0KGgo'']"

text \<open>
  Of the playback schedule: the nodes started so far are sequential, and the last of
  them ends no later than the next start time.
\<close>

definition chained :: "Scene_state \<Rightarrow> source_node list \<Rightarrow> bool" where
  "chained s new \<longleftrightarrow> sequential new \<and>
     (new \<noteq> [] \<longrightarrow> start_at (last new) \<le> nextAudioStartTimeRef s
                   \<and> start_at (last new) + duration (last new) \<le> nextAudioStartTimeRef s)"

text \<open>
  On the way from \<open>s\<close> to \<open>s'\<close> calls were only added to the log, none of them starts
  a source, and the next start time is as it was.
\<close>

definition silent :: "Scene_state \<Rightarrow> Scene_state \<Rightarrow> bool" where
  "silent s s' \<longleftrightarrow> (\<exists>es. effects s' = effects s @ es \<and> started es = [])
     \<and> nextAudioStartTimeRef s' = nextAudioStartTimeRef s"

text \<open>A message with audio only, one with audio and the interruption flag, and a session that has been started.\<close>

definition audio_message :: LiveServerMessage where
  "audio_message = \<lparr>outputTranscription = None,
     modelTurn = Some (Content (Some [Some ''AAAA''])), interrupted = False\<rparr>"

definition interrupting_message :: LiveServerMessage where
  "interrupting_message = \<lparr>outputTranscription = None,
     modelTurn = Some (Content (Some [Some ''AAAA''])), interrupted = True\<rparr>"

text \<open>A message with the interruption signal alone, as sent on barge-in.\<close>

definition barge_in :: LiveServerMessage where
  "barge_in = \<lparr>outputTranscription = None, modelTurn = None, interrupted = True\<rparr>"

text \<open>A message with the interruption signal and a model turn that has no parts.\<close>

definition turn_without_parts :: LiveServerMessage where
  "turn_without_parts = \<lparr>outputTranscription = None, modelTurn = Some (Content None),
     interrupted = True\<rparr>"

definition Scene_connected :: Scene_state where
  "Scene_connected = run_scene [MediaSettled True, StartSession (Opened Running Running)]"


text \<open>
  Of the live session. \<open>released\<close>: every resource ref is null. \<open>quiescent\<close>: no ref
  holds anything that \<^verbatim>\<open>cleanup\<close> would act on. \<open>well_formed\<close>: no ref holds a timer id
  of zero or a closed context. \<open>scene_inv\<close>: the state is well formed, and without a
  media stream nothing else is held either.
\<close>

definition released :: "Scene_state \<Rightarrow> bool" where
  "released s \<longleftrightarrow> frameIntervalRef s = None \<and> mediaStreamRef s = None \<and> scriptProcessorRef s = None
     \<and> inputAudioContextRef s = None \<and> outputAudioContextRef s = None \<and> sessionRef s = None"


definition well_formed :: "Scene_state \<Rightarrow> bool" where
  "well_formed s \<longleftrightarrow> frameIntervalRef s \<noteq> Some 0 \<and> inputAudioContextRef s \<noteq> Some Closed
     \<and> outputAudioContextRef s \<noteq> Some Closed"

definition scene_inv :: "Scene_state \<Rightarrow> bool" where
  "scene_inv s \<longleftrightarrow> well_formed s \<and> (mediaStreamRef s = None \<longrightarrow> released s)"

text \<open>The calls that open an audio context or a session.\<close>

fun opens :: "scene_effect \<Rightarrow> bool" where
  "opens Connect = True"
| "opens (NewAudioContext _ _) = True"
| "opens _ = False"

text \<open>The calls made on the way from \<open>s\<close> to \<open>s'\<close>, when the log of \<open>s'\<close> extends that of \<open>s\<close>.\<close>

definition emitted :: "Scene_state \<Rightarrow> Scene_state \<Rightarrow> scene_effect list" where
  "emitted s s' = drop (length (effects s)) (effects s')"

text \<open>On the way from \<open>s\<close> to \<open>s'\<close> calls were only added to the log, and none of them opens anything.\<close>

definition quiet :: "Scene_state \<Rightarrow> Scene_state \<Rightarrow> bool" where
  "quiet s s' \<longleftrightarrow> (\<exists>es. effects s' = effects s @ es \<and> \<not> list_ex opens es)"

text \<open>A session that is active and has one buffer scheduled.\<close>

definition Scene_active :: Scene_state where
  "Scene_active = run_scene [MediaSettled True, StartSession (Opened Running Suspended), Onopen 7,
     MessageReceived audio_message 1, AudioDecoded audio_message 2]"

text \<open>
  Three audio messages. The first is handled in one piece; the third is received
  before the second is decoded, when the audio clock has passed the end of the first
  buffer.
\<close>

definition audio_events :: "Scene_event list" where
  "audio_events = [MessageReceived audio_message 1, AudioDecoded audio_message 2,
     MessageReceived audio_message (3 / 2), MessageReceived audio_message 5,
     AudioDecoded audio_message 1, AudioDecoded audio_message 1]"

text \<open>
  Two audio messages, then the interruption signal while the second buffer is still
  to play, then a third audio message.
\<close>

definition barge_in_events :: "Scene_event list" where
  "barge_in_events = [MessageReceived audio_message 5, AudioDecoded audio_message 10,
     MessageReceived audio_message 6, AudioDecoded audio_message 1,
     MessageReceived barge_in (13 / 2),
     MessageReceived audio_message 7, AudioDecoded audio_message 10]"

text \<open>The calls that ask the browser for the position or for the permission.\<close>

fun is_request :: "location_call \<Rightarrow> bool" where
  "is_request (ClearWatch _) = False"
| "is_request _ = True"

text \<open>
  Of the navigation screen: the permission is \<open>Denied\<close>, nothing is loading, no
  position watch is held, and no callback is outstanding.
\<close>

definition denied_inv :: "Maps_state \<Rightarrow> bool" where
  "denied_inv s \<longleftrightarrow> locationPermission s = Denied \<and> \<not> isLoading s \<and> locationWatcherId s = None
     \<and> cameras_awaited s = 0 \<and> WatchPosition \<notin> set (location_calls s)
     \<and> RequestCurrentPosition \<notin> set (location_calls s)"

text \<open>
  A run of the navigation screen: permission granted, a position found, the
  destination ``Library'' typed, navigation started and a request sent; then navigation
  is stopped; then it is started again.
\<close>

definition Library :: code_units where
  "Library = [76, 105, 98, 114, 97, 114, 121]"

definition Maps_navigating :: Maps_state where
  "Maps_navigating = foldl step_maps (mount (QueryResolved PermissionGranted) 3)
     [PositionFound 48 2, DestinationTyped Library, Clicked StartButton, CameraSettled True,
      StartTimeoutFired 5, FrameEncoded]"

definition Maps_stopped :: Maps_state where
  "Maps_stopped = step_maps Maps_navigating (Clicked StopButton)"

definition Maps_restarted :: Maps_state where
  "Maps_restarted = step_maps Maps_stopped (Clicked StartButton)"

section \<open>The spoken summary\<close>

lemma foldl_set_add_first:
  "foldl set_add acc xs = acc @ first_occurrences (filter (\<lambda>y. y \<notin> set acc) xs)"
proof (induction "length xs" arbitrary: xs acc rule: less_induct)
  case less
  show ?case
  proof (cases xs)
    case Nil
    then show ?thesis by simp
  next
    case (Cons x ys)
    show ?thesis
    proof (cases "x \<in> set acc")
      case True
      then show ?thesis using less [of ys acc] Cons by (simp add: set_add_def)
    next
      case False
      have "foldl set_add acc xs = foldl set_add (acc @ [x]) ys"
        using False Cons by (simp add: set_add_def)
      also have "\<dots> = (acc @ [x]) @ first_occurrences (filter (\<lambda>y. y \<notin> set (acc @ [x])) ys)"
        using less [of ys "acc @ [x]"] Cons by simp
      also have "filter (\<lambda>y. y \<notin> set (acc @ [x])) ys
          = filter (\<lambda>y. y \<noteq> x) (filter (\<lambda>y. y \<notin> set acc) ys)"
        by (auto intro: filter_cong)
      finally show ?thesis using False Cons by simp
    qed
  qed
qed

lemma new_Set_first: "new_Set xs = first_occurrences xs"
  by (simp add: new_Set_def foldl_set_add_first)

lemma uniqueLabels_Nil_iff: "uniqueLabels predictions = [] \<longleftrightarrow> predictions = []"
  by (cases predictions) (simp_all add: uniqueLabels_def new_Set_first)

lemma first_occurrences_same:
  assumes "\<forall>y \<in> set xs. y = x"
  shows "first_occurrences (x # xs) = [x]"
proof -
  from assms have "filter (\<lambda>y. y \<noteq> x) xs = []"
    by (induction xs) auto
  then show ?thesis by simp
qed

lemma uniqueLabels_one_label:
  assumes "predictions \<noteq> []" and "\<forall>p \<in> set predictions. cls p = L"
  shows "uniqueLabels predictions = [L]"
proof -
  obtain p ps where ps: "predictions = p # ps"
    using assms(1) by (cases predictions) auto
  have "cls p = L" and "\<forall>y \<in> set (map cls ps). y = L"
    using assms(2) ps by auto
  then show ?thesis
    using first_occurrences_same [of "map cls ps" L]
    by (simp add: ps uniqueLabels_def new_Set_first)
qed

lemma summary_single:
  "uniqueLabels predictions = [X] \<Longrightarrow> summary predictions = ''I see a '' @ X @ ''.''"
  using uniqueLabels_Nil_iff [of predictions] by (auto simp add: summary_def Let_def)





text \<open>
  Claim C9. The summary depends on the predictions only through their distinct labels
  in the order of first occurrence: \<open>uniqueLabels\<close> is that sequence, two lists of
  predictions with the same sequence get the same summary, and a non-empty list whose
  objects all carry one label L gets ``I see a L.'', however many objects there are.
\<close>

theorem summary_distinct_labels:
  "uniqueLabels predictions = first_occurrences (map cls predictions)
   \<and> (uniqueLabels ps = uniqueLabels qs \<longrightarrow> summary ps = summary qs)
   \<and> (predictions \<noteq> [] \<and> (\<forall>p \<in> set predictions. cls p = L) \<longrightarrow>
        summary predictions = ''I see a '' @ L @ ''.'')"
proof (intro conjI impI)
  show "uniqueLabels predictions = first_occurrences (map cls predictions)"
    by (simp add: uniqueLabels_def new_Set_first)
next
  assume "uniqueLabels ps = uniqueLabels qs"
  moreover from this have "ps = [] \<longleftrightarrow> qs = []"
    using uniqueLabels_Nil_iff [of ps] uniqueLabels_Nil_iff [of qs] by simp
  ultimately show "summary ps = summary qs"
    by (simp add: summary_def)
next
  assume "predictions \<noteq> [] \<and> (\<forall>p \<in> set predictions. cls p = L)"
  then have "uniqueLabels predictions = [L]"
    using uniqueLabels_one_label by blast
  then show "summary predictions = ''I see a '' @ L @ ''.''"
    by (rule summary_single)
qed

theorem summary_distinct_labels_witness:
  "uniqueLabels [det ''dog'', det ''cat'', det ''dog''] = uniqueLabels [det ''dog'', det ''cat'']
   \<and> summary [det ''dog'', det ''cat'', det ''dog''] = summary [det ''dog'', det ''cat'']
   \<and> [det ''cup'', det ''cup'', det ''cup''] \<noteq> []
   \<and> cls (det ''cup'') = ''cup''
   \<and> summary [det ''cup'', det ''cup'', det ''cup''] = ''I see a cup.''"
proof -
  have u: "uniqueLabels [det ''dog'', det ''cat'', det ''dog''] = uniqueLabels [det ''dog'', det ''cat'']"
    by (simp add: uniqueLabels_def new_Set_def set_add_def det_def)
  have c: "\<forall>p \<in> set [det ''cup'', det ''cup'', det ''cup'']. cls p = ''cup''"
    by (simp add: det_def)
  have n: "[det ''cup'', det ''cup'', det ''cup''] \<noteq> []"
    by simp
  have s1: "summary [det ''dog'', det ''cat'', det ''dog''] = summary [det ''dog'', det ''cat'']"
    using summary_distinct_labels [of "[]" "[det ''dog'', det ''cat'', det ''dog'']"
        "[det ''dog'', det ''cat'']" "[]"] u
    by simp
  have s2: "summary [det ''cup'', det ''cup'', det ''cup''] = ''I see a cup.''"
    using summary_distinct_labels [of "[det ''cup'', det ''cup'', det ''cup'']" "[]" "[]" "''cup''"] n c
    by simp
  have l: "cls (det ''cup'') = ''cup''"
    by (simp add: det_def)
  from u s1 n l s2 show ?thesis by blast
qed

section \<open>One detection at a time\<close>

lemma render_fast_idem: "render_fast (render_fast s) = render_fast s"
  by (simp add: render_fast_def)

lemma render_fast_fields:
  "in_flight (render_fast s) = in_flight s" "isDetecting (render_fast s) = isDetecting s"
  by (simp_all add: render_fast_def)

lemma fast_inv_render:
  "in_flight s = (if isDetecting s then 1 else 0) \<Longrightarrow> fast_inv (render_fast s)"
  by (simp add: fast_inv_def render_fast_idem render_fast_fields)

lemma handleCapture_detecting: "isDetecting s \<Longrightarrow> handleCapture has_context dataUrl s = s"
  by (simp add: handleCapture_def)

lemma step_fast_inv:
  assumes "fast_inv s"
  shows "fast_inv (step_fast s e)"
proof -
  have c: "in_flight s = (if isDetecting s then 1 else 0)"
    using assms by (simp add: fast_inv_def)
  show ?thesis
  proof (cases e)
    case ModelLoaded
    show ?thesis unfolding ModelLoaded step_fast.simps
      by (rule fast_inv_render) (simp add: c)
  next
    case ModelFailed
    show ?thesis unfolding ModelFailed step_fast.simps
      by (rule fast_inv_render) (simp add: c)
  next
    case (Capture has_context dataUrl)
    show ?thesis unfolding Capture step_fast.simps
      by (rule fast_inv_render) (simp add: c handleCapture_def Let_def)
  next
    case (Settled r)
    show ?thesis
    proof (cases "in_flight s = 0")
      case True
      then show ?thesis using assms Settled by simp
    next
      case False
      have "fast_inv (render_fast (handleCapture_settled r s))"
        by (rule fast_inv_render)
          (use c False in \<open>cases r; simp add: handleCapture_settled_def split: if_splits\<close>)
      then show ?thesis using False Settled by simp
    qed
  next
    case Reset
    show ?thesis unfolding Reset step_fast.simps
      by (rule fast_inv_render) (simp add: c handleReset_def)
  next
    case CameraFailed
    show ?thesis unfolding CameraFailed step_fast.simps
      by (rule fast_inv_render) (simp add: c)
  qed
qed

lemma FastMode_init_inv: "fast_inv FastMode_init"
  by (simp add: fast_inv_def FastMode_init_def render_fast_def)

lemma foldl_fast_inv: "fast_inv s \<Longrightarrow> fast_inv (foldl step_fast s evs)"
  by (induction evs arbitrary: s) (simp_all add: step_fast_inv)

lemma run_fast_inv: "fast_inv (run_fast evs)"
  by (simp add: run_fast_def foldl_fast_inv FastMode_init_inv)

lemma detecting_eq:
  "detecting = \<lparr>videoRef = False, canvasRef = True, model = True, isLoadingModel = False,
     isDetecting = True, capturedImage = Some ''data:image/png;base64,iVBORw0KGgo'',
     boxes = [], error_fast = None, speech = [Cancel], in_flight = 1\<rparr>"
  by (simp add: detecting_def run_fast_def FastMode_init_def render_fast_def handleCapture_def)

text \<open>
  Claim C7. At most one detection is in flight at any time, and an invocation of
  \<^verbatim>\<open>handleCapture\<close> while \<open>isDetecting\<close> is set is ignored: the handler returns the
  state it was given (nothing is changed, no detection is started, and there is no
  queue in the state that could hold the request), and after any sequence of events
  the whole step, render included, leaves the component as it was.
\<close>

theorem single_detection_in_flight:
  "(isDetecting s \<longrightarrow> handleCapture has_context dataUrl s = s)
   \<and> in_flight (run_fast evs) \<le> 1
   \<and> (isDetecting (run_fast evs) \<longrightarrow>
        step_fast (run_fast evs) (Capture has_context dataUrl) = run_fast evs)"
proof (intro conjI impI)
  assume "isDetecting s"
  then show "handleCapture has_context dataUrl s = s"
    by (rule handleCapture_detecting)
next
  show "in_flight (run_fast evs) \<le> 1"
    using run_fast_inv [of evs] by (simp add: fast_inv_def split: if_splits)
next
  assume "isDetecting (run_fast evs)"
  then show "step_fast (run_fast evs) (Capture has_context dataUrl) = run_fast evs"
    using run_fast_inv [of evs] by (simp add: fast_inv_def handleCapture_detecting)
qed

theorem single_detection_in_flight_witness:
  "isDetecting detecting
   \<and> in_flight detecting = 1
   \<and> handleCapture True ''data:image/png;base64,AAAA'' detecting = detecting
   \<and> step_fast detecting (Capture True ''data:image/png;base64,AAAA'') = detecting"
proof -
  have d: "isDetecting detecting" and i: "in_flight detecting = 1"
    by (simp_all add: detecting_eq)
  have r: "isDetecting (run_fast [ModelLoaded, Capture True ''data:image/png;base64,iVBORw0KGgo''])"
    using d by (simp add: detecting_def)
  note t = single_detection_in_flight
    [of detecting True "''data:image/png;base64,AAAA''"
      "[ModelLoaded, Capture True ''data:image/png;base64,iVBORw0KGgo'']"]
  have h: "handleCapture True ''data:image/png;base64,AAAA'' detecting = detecting"
    using t d by blast
  have "step_fast (run_fast [ModelLoaded, Capture True ''data:image/png;base64,iVBORw0KGgo''])
          (Capture True ''data:image/png;base64,AAAA'')
        = run_fast [ModelLoaded, Capture True ''data:image/png;base64,iVBORw0KGgo'']"
    using t r by blast
  then have st: "step_fast detecting (Capture True ''data:image/png;base64,AAAA'') = detecting"
    unfolding detecting_def .
  from d i h st show ?thesis by blast
qed

section \<open>The playback schedule\<close>

lemma started_append: "started (es @ es') = started es @ started es'"
  by (induction es rule: started.induct) simp_all

lemma started_SourceStop: "started (map SourceStop ns) = []"
  by (induction ns) simp_all

lemma stopped_append: "stopped (es @ es') = stopped es @ stopped es'"
  by (induction es rule: stopped.induct) simp_all

lemma stopped_SourceStop: "stopped (map SourceStop ns) = ns"
  by (induction ns) simp_all

lemma sequential_snoc:
  "sequential (ns @ [n]) \<longleftrightarrow>
     sequential ns \<and> (ns \<noteq> [] \<longrightarrow> start_at (last ns) \<le> start_at n
                        \<and> start_at (last ns) + duration (last ns) \<le> start_at n)"
  by (induction ns rule: sequential.induct) auto

lemma sequential_sorted: "sequential ns \<Longrightarrow> sorted (map start_at ns)"
proof (induction ns rule: sequential.induct)
  case (1 a b ns)
  then have "sorted (map start_at (b # ns))" and "start_at a \<le> start_at b"
    by simp_all
  then show ?case by (auto intro: order_trans)
qed simp_all

lemma sequential_nth:
  "sequential ns \<Longrightarrow> Suc i < length ns \<Longrightarrow>
     start_at (ns ! i) + duration (ns ! i) \<le> start_at (ns ! Suc i)"
proof (induction ns arbitrary: i rule: sequential.induct)
  case (1 a b ns)
  then show ?case by (cases i) simp_all
qed simp_all

lemma silent_same:
  "effects s' = effects s \<Longrightarrow> nextAudioStartTimeRef s' = nextAudioStartTimeRef s \<Longrightarrow> silent s s'"
  by (simp add: silent_def)

lemma silent_trans: "silent s s' \<Longrightarrow> silent s' s'' \<Longrightarrow> silent s s''"
  by (auto simp: silent_def started_append)

lemma cleanup_parts_silent:
  "silent s (cleanup_frameInterval s)" "silent s (cleanup_mediaStream s)"
  "silent s (cleanup_scriptProcessor s)" "silent s (cleanup_inputAudioContext s)"
  "silent s (cleanup_outputAudioContext s)" "silent s (cleanup_session s)"
  by (simp_all add: silent_def cleanup_frameInterval_def cleanup_mediaStream_def
      cleanup_scriptProcessor_def cleanup_inputAudioContext_def cleanup_outputAudioContext_def
      cleanup_session_def split: option.splits)

lemma cleanup_silent: "silent s (cleanup s)"
proof -
  note q = cleanup_parts_silent
  have "silent s (cleanup_mediaStream (cleanup_frameInterval s))"
    by (rule silent_trans [OF q(1) q(2)])
  then have "silent s (cleanup_scriptProcessor (cleanup_mediaStream (cleanup_frameInterval s)))"
    by (rule silent_trans [OF _ q(3)])
  then have "silent s (cleanup_inputAudioContext (cleanup_scriptProcessor
      (cleanup_mediaStream (cleanup_frameInterval s))))"
    by (rule silent_trans [OF _ q(4)])
  then have "silent s (cleanup_outputAudioContext (cleanup_inputAudioContext
      (cleanup_scriptProcessor (cleanup_mediaStream (cleanup_frameInterval s)))))"
    by (rule silent_trans [OF _ q(5)])
  then have "silent s (cleanup_session (cleanup_outputAudioContext (cleanup_inputAudioContext
      (cleanup_scriptProcessor (cleanup_mediaStream (cleanup_frameInterval s))))))"
    by (rule silent_trans [OF _ q(6)])
  then show ?thesis by (simp only: cleanup_def)
qed

lemma silent_sessionState: "silent s s' \<Longrightarrow> silent s (s'\<lparr>sessionState := x\<rparr>)"
  by (simp add: silent_def)

lemma silent_from_update:
  "silent (s\<lparr>error_scene := y, sessionState := x\<rparr>) s' \<Longrightarrow> silent s s'"
  "silent (s\<lparr>sessionState := x\<rparr>) s' \<Longrightarrow> silent s s'"
  by (simp_all add: silent_def)

lemma stopSession_silent: "silent s (stopSession s)"
  unfolding stopSession_def by (rule silent_sessionState [OF cleanup_silent])

text \<open>The events that are neither a new session nor a step of a message handler.\<close>

lemma step_scene_silent:
  assumes "steady e" and "\<forall>m t. e \<noteq> MessageReceived m t" and "\<forall>m d. e \<noteq> AudioDecoded m d"
  shows "silent s (step_scene s e)"
proof (cases e)
  case (MediaSettled granted)
  then show ?thesis by (simp add: startCameraAndMic_def silent_def)
next
  case (StartSession outcome)
  then show ?thesis using assms(1) by simp
next
  case (Onopen timer)
  then show ?thesis by (simp add: onopen_def silent_def)
next
  case (MessageReceived m t)
  then show ?thesis using assms(2) by simp
next
  case (AudioDecoded m d)
  then show ?thesis using assms(3) by simp
next
  case (SourceEnded n)
  then show ?thesis by (simp add: source_ended_def silent_def)
next
  case Onerror
  have "silent s (onerror s)"
    unfolding onerror_def by (rule silent_from_update(1) [OF cleanup_silent])
  then show ?thesis using Onerror by simp
next
  case Onclose
  have "silent s (onclose s)"
    unfolding onclose_def by (rule silent_from_update(2) [OF cleanup_silent])
  then show ?thesis using Onclose by simp
next
  case StopSession
  then show ?thesis by (simp add: stopSession_silent)
next
  case Back
  then show ?thesis
    using silent_trans [OF stopSession_silent cleanup_silent] by simp
next
  case (ContextStateChanged role st)
  then show ?thesis by (cases role) (simp_all add: silent_def)
qed

lemma received_effects:
  "\<not> interrupted m \<Longrightarrow> effects (fst (onmessage_received m t s)) = effects s"
  by (simp add: onmessage_received_def onmessage_interrupted_def Let_def
      split: option.splits sum.splits)

lemma received_next:
  "\<not> interrupted m \<Longrightarrow>
     nextAudioStartTimeRef s \<le> nextAudioStartTimeRef (fst (onmessage_received m t s))"
  by (simp add: onmessage_received_def onmessage_interrupted_def Let_def
      split: option.splits sum.splits)

lemma decoded_effects:
  "\<not> interrupted m \<Longrightarrow> started (effects (onmessage_decoded m d s)) =
     started (effects s) @
       [\<lparr>node_id = nodes_created s, start_at = nextAudioStartTimeRef s, duration = d\<rparr>]"
  by (simp add: onmessage_decoded_def onmessage_interrupted_def Let_def started_append)

lemma decoded_next:
  "\<not> interrupted m \<Longrightarrow>
     nextAudioStartTimeRef (onmessage_decoded m d s) = nextAudioStartTimeRef s + d"
  by (simp add: onmessage_decoded_def onmessage_interrupted_def Let_def)

lemma step_chained:
  assumes "steady e" and "started (effects s) = pre @ new" and "chained s new"
  shows "\<exists>new'. started (effects (step_scene s e)) = pre @ new' \<and> chained (step_scene s e) new'"
proof -
  consider (received) m t where "e = MessageReceived m t"
    | (decoded) m d where "e = AudioDecoded m d"
    | (other) "\<forall>m t. e \<noteq> MessageReceived m t" "\<forall>m d. e \<noteq> AudioDecoded m d"
    by (cases e) auto
  then show ?thesis
  proof cases
    case received
    then have ni: "\<not> interrupted m" using assms(1) by simp
    have "started (effects (step_scene s e)) = pre @ new"
      using received ni assms(2) by (simp add: received_effects)
    moreover have "chained (step_scene s e) new"
      using assms(3) received_next [OF ni, of s t] received
      by (auto simp: chained_def)
    ultimately show ?thesis by blast
  next
    case decoded
    then have ni: "\<not> interrupted m" and d: "0 \<le> d" using assms(1) by simp_all
    let ?n = "\<lparr>node_id = nodes_created s, start_at = nextAudioStartTimeRef s, duration = d\<rparr>"
    have "started (effects (step_scene s e)) = pre @ (new @ [?n])"
      using decoded ni assms(2) by (simp add: decoded_effects)
    moreover have "chained (step_scene s e) (new @ [?n])"
      using assms(3) d decoded ni
      by (simp add: chained_def sequential_snoc decoded_next)
    ultimately show ?thesis by blast
  next
    case other
    from step_scene_silent [OF assms(1) other, of s]
    obtain es where es: "effects (step_scene s e) = effects s @ es" "started es = []"
      and n: "nextAudioStartTimeRef (step_scene s e) = nextAudioStartTimeRef s"
      by (auto simp: silent_def)
    have "started (effects (step_scene s e)) = pre @ new"
      using es assms(2) by (simp add: started_append)
    moreover have "chained (step_scene s e) new"
      using assms(3) n by (simp add: chained_def)
    ultimately show ?thesis by blast
  qed
qed

lemma run_chained:
  assumes "list_all steady evs"
  shows "\<exists>new. started (effects (foldl step_scene s evs)) = started (effects s) @ new
           \<and> chained (foldl step_scene s evs) new"
  using assms
proof (induction evs rule: rev_induct)
  case Nil
  show ?case by (simp add: chained_def)
next
  case (snoc e evs)
  then obtain new where new: "started (effects (foldl step_scene s evs)) = started (effects s) @ new"
      "chained (foldl step_scene s evs) new"
    by auto
  have "steady e" using snoc.prems by simp
  from step_chained [OF this new] show ?case by simp
qed

lemma onmessage_schedules:
  assumes "base64Audio m = Inr audio" and "truthy audio" and "outputAudioContextRef s \<noteq> None"
  shows "started (effects (onmessage m t (Some d) s)) =
           started (effects s) @
             [\<lparr>node_id = nodes_created s, start_at = max (nextAudioStartTimeRef s) t, duration = d\<rparr>]"
    and "nextAudioStartTimeRef (onmessage m t (Some d) s) =
           (if interrupted m then 0 else max (nextAudioStartTimeRef s) t + d)"
  using assms
  by (auto simp add: onmessage_def onmessage_received_def onmessage_decoded_def
      onmessage_interrupted_def Let_def started_append started_SourceStop split: option.splits)

lemma Scene_connected_eq:
  "Scene_connected = \<lparr>error_scene = None, sessionState = Connecting, transcription = [],
    sessionRef = Some (), inputAudioContextRef = Some Running,
    outputAudioContextRef = Some Running, mediaStreamRef = Some (),
    scriptProcessorRef = None, frameIntervalRef = None,
    nextAudioStartTimeRef = 0, audioSourcesRef = [], nodes_created = 0,
    effects = [NewAudioContext Input 16000, NewAudioContext Output 24000, Connect]\<rparr>"
  by (simp add: Scene_connected_def run_scene_def Scene_init_def startCameraAndMic_def startSession_def)

lemma audio_message_read: "base64Audio audio_message = Inr (Some ''AAAA'')"
  by (simp add: base64Audio_def audio_message_def)

lemma barge_in_read: "base64Audio barge_in = Inr None"
  by (simp add: base64Audio_def barge_in_def)

lemma audio_events_run:
  "started (effects (foldl step_scene Scene_connected audio_events)) =
     [\<lparr>node_id = 0, start_at = 1, duration = 2\<rparr>,
      \<lparr>node_id = 1, start_at = 5, duration = 1\<rparr>,
      \<lparr>node_id = 2, start_at = 6, duration = 1\<rparr>]"
  by (simp add: Scene_connected_eq audio_events_def onmessage_received_def base64Audio_def
      onmessage_decoded_def onmessage_interrupted_def truthy_def Let_def audio_message_def)

lemma barge_in_events_run:
  "started (effects (foldl step_scene Scene_connected barge_in_events)) =
     [\<lparr>node_id = 0, start_at = 5, duration = 10\<rparr>,
      \<lparr>node_id = 1, start_at = 15, duration = 1\<rparr>,
      \<lparr>node_id = 2, start_at = 7, duration = 10\<rparr>]"
  by (simp add: Scene_connected_eq barge_in_events_def onmessage_received_def base64Audio_def
      onmessage_decoded_def onmessage_interrupted_def truthy_def Let_def
      audio_message_def barge_in_def)

text \<open>
  Claim C1, as stated, fails. Two audio fragments are received and scheduled at 5 and
  at 15; the interruption signal arrives and sets the next start time to zero; a third
  fragment is received when the audio clock reads 7 and is scheduled at 7. The start
  times 5, 15, 7 of the three fragments are not non-decreasing, and the window of the
  third, from 7 to 17, begins before the window of the second, from 15 to 16, ends, and
  overlaps it.
\<close>

theorem playback_order_reset_by_interruption:
  "started (effects (foldl step_scene Scene_connected barge_in_events)) =
     [\<lparr>node_id = 0, start_at = 5, duration = 10\<rparr>,
      \<lparr>node_id = 1, start_at = 15, duration = 1\<rparr>,
      \<lparr>node_id = 2, start_at = 7, duration = 10\<rparr>]
   \<and> \<not> sorted (map start_at (started (effects (foldl step_scene Scene_connected barge_in_events))))
   \<and> \<not> (start_at (started (effects (foldl step_scene Scene_connected barge_in_events)) ! 1)
          + duration (started (effects (foldl step_scene Scene_connected barge_in_events)) ! 1)
        \<le> start_at (started (effects (foldl step_scene Scene_connected barge_in_events)) ! 2))
   \<and> start_at (started (effects (foldl step_scene Scene_connected barge_in_events)) ! 2)
       < start_at (started (effects (foldl step_scene Scene_connected barge_in_events)) ! 1)
         + duration (started (effects (foldl step_scene Scene_connected barge_in_events)) ! 1)
   \<and> start_at (started (effects (foldl step_scene Scene_connected barge_in_events)) ! 1)
       < start_at (started (effects (foldl step_scene Scene_connected barge_in_events)) ! 2)
         + duration (started (effects (foldl step_scene Scene_connected barge_in_events)) ! 2)"
  by (simp add: barge_in_events_run)

text \<open>
  Claim C1, amended. A message with audio, handled in one piece while there is an
  output context and with the decoder delivering, starts its buffer at the maximum of
  the next start time (the end of what was scheduled before, or zero after a reset)
  and the current time of the audio clock, and then moves the next start time on by the
  duration of the buffer (to zero if the same message also interrupts). Over every
  sequence of events that holds no interruption signal and no new \<^verbatim>\<open>startSession\<close>, the
  two halves of different handlers and all other events interleaved in any way, the
  start times of the buffers started are non-decreasing and each buffer starts no
  earlier than the one before it ends. Durations are not negative, as those of an
  \<^verbatim>\<open>AudioBuffer\<close> are.
\<close>

theorem playback_sequential:
  "(base64Audio m = Inr audio \<and> truthy audio \<and> outputAudioContextRef s \<noteq> None \<longrightarrow>
      started (effects (onmessage m t (Some d) s)) =
        started (effects s) @
          [\<lparr>node_id = nodes_created s, start_at = max (nextAudioStartTimeRef s) t, duration = d\<rparr>]
      \<and> nextAudioStartTimeRef (onmessage m t (Some d) s) =
          (if interrupted m then 0 else max (nextAudioStartTimeRef s) t + d))
   \<and> (list_all steady evs \<longrightarrow>
        (let new = drop (length (started (effects s))) (started (effects (foldl step_scene s evs)))
         in sorted (map start_at new)
            \<and> (\<forall>i. Suc i < length new \<longrightarrow>
                   start_at (new ! i) + duration (new ! i) \<le> start_at (new ! Suc i))))"
proof (intro conjI impI)
  assume a: "base64Audio m = Inr audio \<and> truthy audio \<and> outputAudioContextRef s \<noteq> None"
  then show "started (effects (onmessage m t (Some d) s)) =
        started (effects s) @
          [\<lparr>node_id = nodes_created s, start_at = max (nextAudioStartTimeRef s) t, duration = d\<rparr>]"
    using onmessage_schedules(1) [of m audio s t d] by blast
  from a show "nextAudioStartTimeRef (onmessage m t (Some d) s) =
          (if interrupted m then 0 else max (nextAudioStartTimeRef s) t + d)"
    using onmessage_schedules(2) [of m audio s t d] by blast
next
  assume "list_all steady evs"
  from run_chained [OF this, of s] obtain new where
    new: "started (effects (foldl step_scene s evs)) = started (effects s) @ new"
    and ch: "chained (foldl step_scene s evs) new"
    by blast
  have seq: "sequential new" using ch by (simp add: chained_def)
  have "sorted (map start_at new)
      \<and> (\<forall>i. Suc i < length new \<longrightarrow>
             start_at (new ! i) + duration (new ! i) \<le> start_at (new ! Suc i))"
    using sequential_sorted [OF seq] sequential_nth [OF seq] by blast
  then show "let new = drop (length (started (effects s))) (started (effects (foldl step_scene s evs)))
         in sorted (map start_at new)
            \<and> (\<forall>i. Suc i < length new \<longrightarrow>
                   start_at (new ! i) + duration (new ! i) \<le> start_at (new ! Suc i))"
    by (simp add: new)
qed

theorem playback_sequential_witness:
  "base64Audio audio_message = Inr (Some ''AAAA'')
   \<and> truthy (Some ''AAAA'')
   \<and> outputAudioContextRef Scene_connected \<noteq> None
   \<and> started (effects (onmessage audio_message 4 (Some 2) Scene_connected)) =
       [\<lparr>node_id = 0, start_at = 4, duration = 2\<rparr>]
   \<and> nextAudioStartTimeRef (onmessage audio_message 4 (Some 2) Scene_connected) = 6
   \<and> list_all steady (audio_events @ [Onclose])
   \<and> started (effects (foldl step_scene Scene_connected audio_events)) =
       [\<lparr>node_id = 0, start_at = 1, duration = 2\<rparr>,
        \<lparr>node_id = 1, start_at = 5, duration = 1\<rparr>,
        \<lparr>node_id = 2, start_at = 6, duration = 1\<rparr>]
   \<and> sorted (map start_at (started (effects (foldl step_scene Scene_connected
        (audio_events @ [Onclose])))))"
proof -
  have h0: "base64Audio audio_message = Inr (Some ''AAAA'')"
    by (rule audio_message_read)
  have h1: "truthy (Some ''AAAA'')"
    by (simp add: truthy_def)
  have h2: "outputAudioContextRef Scene_connected \<noteq> None"
    by (simp add: Scene_connected_eq)
  have h3: "list_all steady (audio_events @ [Onclose])"
    by (simp add: audio_events_def audio_message_def)
  have e: "started (effects Scene_connected) = []"
    by (simp add: Scene_connected_eq)
  have i: "\<not> interrupted audio_message"
    by (simp add: audio_message_def)
  have n: "nodes_created Scene_connected = 0" "nextAudioStartTimeRef Scene_connected = 0"
    by (simp_all add: Scene_connected_eq)
  note t = playback_sequential [of audio_message "Some ''AAAA''" Scene_connected 4 2
      "audio_events @ [Onclose]"]
  have c1: "started (effects (onmessage audio_message 4 (Some 2) Scene_connected)) =
       [\<lparr>node_id = 0, start_at = 4, duration = 2\<rparr>]"
    using t h0 h1 h2 e n by simp
  have c2: "nextAudioStartTimeRef (onmessage audio_message 4 (Some 2) Scene_connected) = 6"
    using t h0 h1 h2 i n by simp
  have c3: "sorted (map start_at (started (effects (foldl step_scene Scene_connected
        (audio_events @ [Onclose])))))"
    using t h3 e by (simp add: Let_def)
  show ?thesis by (intro conjI h0 h1 h2 c1 c2 h3 audio_events_run c3)
qed

section \<open>Interruption\<close>

lemma onmessage_interrupted_clears:
  assumes "interrupted m"
  shows "audioSourcesRef (onmessage_interrupted m s) = []"
    and "nextAudioStartTimeRef (onmessage_interrupted m s) = 0"
    and "stopped (effects (onmessage_interrupted m s)) = stopped (effects s) @ audioSourcesRef s"
  using assms by (simp_all add: onmessage_interrupted_def stopped_append stopped_SourceStop)

lemma onmessage_decoded_clears:
  assumes "interrupted m"
  shows "audioSourcesRef (onmessage_decoded m d s) = []"
    and "nextAudioStartTimeRef (onmessage_decoded m d s) = 0"
    and "stopped (effects (onmessage_decoded m d s)) =
           stopped (effects s) @ audioSourcesRef s @
             [\<lparr>node_id = nodes_created s, start_at = nextAudioStartTimeRef s, duration = d\<rparr>]"
  using assms
  by (simp_all add: onmessage_decoded_def Let_def onmessage_interrupted_clears stopped_append)

text \<open>
  A handler that reads the audio of its message without an exception, and whose decoder
  delivers, reaches the interruption block: the pending sources are stopped, the one of
  this message included, the set is empty and the next start time is zero.
\<close>

lemma onmessage_clears:
  assumes "interrupted m" and "base64Audio m = Inr audio"
  shows "audioSourcesRef (onmessage m t (Some d) s) = []"
    and "nextAudioStartTimeRef (onmessage m t (Some d) s) = 0"
    and "stopped (effects (onmessage m t (Some d) s)) =
           stopped (effects s) @ audioSourcesRef s @
             (if truthy audio \<and> outputAudioContextRef s \<noteq> None
              then [\<lparr>node_id = nodes_created s, start_at = max (nextAudioStartTimeRef s) t,
                     duration = d\<rparr>]
              else [])"
  using assms
  by (auto simp add: onmessage_def onmessage_received_def onmessage_decoded_clears
      onmessage_interrupted_clears split: option.splits)

text \<open>
  A handler whose read of the audio throws ends there, whatever else the message
  carries: only the transcript has been appended.
\<close>

lemma onmessage_throws:
  assumes "base64Audio m = Inl e"
  shows "onmessage m t decoded s =
           (case outputTranscription m of
              Some text \<Rightarrow> s\<lparr>transcription := transcription s @ text\<rparr>
            | None \<Rightarrow> s)"
    and "snd (onmessage_received m t s) = Threw e"
  using assms by (simp_all add: onmessage_def onmessage_received_def Let_def)

text \<open>A handler whose decoder does not deliver ends in its first half.\<close>

lemma onmessage_undelivered:
  assumes "base64Audio m = Inr audio" and "truthy audio" and "outputAudioContextRef s \<noteq> None"
  shows "audioSourcesRef (onmessage m t None s) = audioSourcesRef s"
    and "effects (onmessage m t None s) = effects s"
    and "nextAudioStartTimeRef (onmessage m t None s) = max (nextAudioStartTimeRef s) t"
  using assms by (auto simp add: onmessage_def onmessage_received_def Let_def split: option.splits)

lemma Scene_active_eq:
  "Scene_active = \<lparr>error_scene = None, sessionState = Active, transcription = [],
    sessionRef = Some (), inputAudioContextRef = Some Running,
    outputAudioContextRef = Some Suspended, mediaStreamRef = Some (),
    scriptProcessorRef = Some (), frameIntervalRef = Some 7,
    nextAudioStartTimeRef = 3, audioSourcesRef = [\<lparr>node_id = 0, start_at = 1, duration = 2\<rparr>],
    nodes_created = 1,
    effects = [NewAudioContext Input 16000, NewAudioContext Output 24000, Connect,
      CreateScriptProcessor, SetInterval 7, SourceStart \<lparr>node_id = 0, start_at = 1, duration = 2\<rparr>]\<rparr>"
  by (simp add: Scene_active_def run_scene_def Scene_init_def startCameraAndMic_def startSession_def
      onopen_def audio_message_def onmessage_received_def base64Audio_def
      onmessage_decoded_def onmessage_interrupted_def truthy_def Let_def)

lemma turn_without_parts_read: "base64Audio turn_without_parts = Inl TypeError"
  by (simp add: base64Audio_def turn_without_parts_def)

lemma barge_in_active:
  "onmessage barge_in 2 None Scene_active =
     Scene_active\<lparr>audioSourcesRef := [], nextAudioStartTimeRef := 0,
       effects := effects Scene_active @ [SourceStop \<lparr>node_id = 0, start_at = 1, duration = 2\<rparr>]\<rparr>"
  by (simp add: onmessage_def onmessage_received_def base64Audio_def truthy_def Let_def
      onmessage_interrupted_def barge_in_def Scene_active_eq)

text \<open>
  Claim C2. A message that carries the interruption signal is to stop every pending
  source, empty the set and reset the next start time to zero. The handler reads the
  audio of the message first, as \<^verbatim>\<open>modelTurn?.parts[0]?.inlineData?.data\<close>, with no
  \<^verbatim>\<open>?.\<close> between \<^verbatim>\<open>parts\<close> and its index. A message with the interruption signal and a
  model turn that has no parts, received while one source is pending and the next start
  time is 3, makes that read throw: the handler ends before the interruption block, with
  the source still pending and not stopped, and the next start time still 3. The same
  signal in a message without a model turn stops the source, empties the set and resets
  the next start time.
\<close>

theorem interruption_lost_without_parts:
  "interrupted turn_without_parts
   \<and> audioSourcesRef Scene_active = [\<lparr>node_id = 0, start_at = 1, duration = 2\<rparr>]
   \<and> nextAudioStartTimeRef Scene_active = 3
   \<and> stopped (effects Scene_active) = []
   \<and> onmessage_received turn_without_parts 2 Scene_active = (Scene_active, Threw TypeError)
   \<and> onmessage turn_without_parts 2 None Scene_active = Scene_active
   \<and> onmessage turn_without_parts 2 (Some 5) Scene_active = Scene_active
   \<and> step_scene Scene_active (MessageReceived turn_without_parts 2) = Scene_active
   \<and> audioSourcesRef (onmessage turn_without_parts 2 None Scene_active) \<noteq> []
   \<and> nextAudioStartTimeRef (onmessage turn_without_parts 2 None Scene_active) \<noteq> 0
   \<and> stopped (effects (onmessage turn_without_parts 2 None Scene_active)) = []
   \<and> interrupted barge_in
   \<and> audioSourcesRef (onmessage barge_in 2 None Scene_active) = []
   \<and> nextAudioStartTimeRef (onmessage barge_in 2 None Scene_active) = 0
   \<and> stopped (effects (onmessage barge_in 2 None Scene_active)) =
        [\<lparr>node_id = 0, start_at = 1, duration = 2\<rparr>]"
proof -
  have i: "interrupted turn_without_parts" "interrupted barge_in"
    by (simp_all add: turn_without_parts_def barge_in_def)
  have a: "audioSourcesRef Scene_active = [\<lparr>node_id = 0, start_at = 1, duration = 2\<rparr>]"
    "nextAudioStartTimeRef Scene_active = 3" "stopped (effects Scene_active) = []"
    by (simp_all add: Scene_active_eq)
  have t: "outputTranscription turn_without_parts = None"
    by (simp add: turn_without_parts_def)
  have r: "onmessage_received turn_without_parts 2 Scene_active = (Scene_active, Threw TypeError)"
    by (simp add: onmessage_received_def turn_without_parts_read t)
  have o: "onmessage turn_without_parts 2 decoded Scene_active = Scene_active" for decoded
    by (simp add: onmessage_def r)
  have s: "step_scene Scene_active (MessageReceived turn_without_parts 2) = Scene_active"
    by (simp add: r)
  have n: "audioSourcesRef (onmessage turn_without_parts 2 None Scene_active) \<noteq> []"
    "nextAudioStartTimeRef (onmessage turn_without_parts 2 None Scene_active) \<noteq> 0"
    "stopped (effects (onmessage turn_without_parts 2 None Scene_active)) = []"
    by (simp_all add: o a)
  have b: "audioSourcesRef (onmessage barge_in 2 None Scene_active) = []"
    "nextAudioStartTimeRef (onmessage barge_in 2 None Scene_active) = 0"
    "stopped (effects (onmessage barge_in 2 None Scene_active)) =
        [\<lparr>node_id = 0, start_at = 1, duration = 2\<rparr>]"
    by (simp_all add: barge_in_active stopped_append a)
  show ?thesis by (intro conjI i a r o s n b)
qed

section \<open>Teardown\<close>

lemma frameInterval_fields:
  "frameIntervalRef (cleanup_frameInterval s) = (if frameIntervalRef s = Some 0 then Some 0 else None)"
  "mediaStreamRef (cleanup_frameInterval s) = mediaStreamRef s"
  "scriptProcessorRef (cleanup_frameInterval s) = scriptProcessorRef s"
  "inputAudioContextRef (cleanup_frameInterval s) = inputAudioContextRef s"
  "outputAudioContextRef (cleanup_frameInterval s) = outputAudioContextRef s"
  "sessionRef (cleanup_frameInterval s) = sessionRef s"
  by (simp_all add: cleanup_frameInterval_def split: option.splits)

lemma mediaStream_fields:
  "frameIntervalRef (cleanup_mediaStream s) = frameIntervalRef s"
  "mediaStreamRef (cleanup_mediaStream s) = None"
  "scriptProcessorRef (cleanup_mediaStream s) = scriptProcessorRef s"
  "inputAudioContextRef (cleanup_mediaStream s) = inputAudioContextRef s"
  "outputAudioContextRef (cleanup_mediaStream s) = outputAudioContextRef s"
  "sessionRef (cleanup_mediaStream s) = sessionRef s"
  by (simp_all add: cleanup_mediaStream_def split: option.splits)

lemma scriptProcessor_fields:
  "frameIntervalRef (cleanup_scriptProcessor s) = frameIntervalRef s"
  "mediaStreamRef (cleanup_scriptProcessor s) = mediaStreamRef s"
  "scriptProcessorRef (cleanup_scriptProcessor s) = None"
  "inputAudioContextRef (cleanup_scriptProcessor s) = inputAudioContextRef s"
  "outputAudioContextRef (cleanup_scriptProcessor s) = outputAudioContextRef s"
  "sessionRef (cleanup_scriptProcessor s) = sessionRef s"
  by (simp_all add: cleanup_scriptProcessor_def split: option.splits)

lemma inputAudioContext_fields:
  "frameIntervalRef (cleanup_inputAudioContext s) = frameIntervalRef s"
  "mediaStreamRef (cleanup_inputAudioContext s) = mediaStreamRef s"
  "scriptProcessorRef (cleanup_inputAudioContext s) = scriptProcessorRef s"
  "inputAudioContextRef (cleanup_inputAudioContext s) =
     (if inputAudioContextRef s = Some Closed then Some Closed else None)"
  "outputAudioContextRef (cleanup_inputAudioContext s) = outputAudioContextRef s"
  "sessionRef (cleanup_inputAudioContext s) = sessionRef s"
  by (simp_all add: cleanup_inputAudioContext_def split: option.splits)

lemma outputAudioContext_fields:
  "frameIntervalRef (cleanup_outputAudioContext s) = frameIntervalRef s"
  "mediaStreamRef (cleanup_outputAudioContext s) = mediaStreamRef s"
  "scriptProcessorRef (cleanup_outputAudioContext s) = scriptProcessorRef s"
  "inputAudioContextRef (cleanup_outputAudioContext s) = inputAudioContextRef s"
  "outputAudioContextRef (cleanup_outputAudioContext s) =
     (if outputAudioContextRef s = Some Closed then Some Closed else None)"
  "sessionRef (cleanup_outputAudioContext s) = sessionRef s"
  by (simp_all add: cleanup_outputAudioContext_def split: option.splits)

lemma session_fields:
  "frameIntervalRef (cleanup_session s) = frameIntervalRef s"
  "mediaStreamRef (cleanup_session s) = mediaStreamRef s"
  "scriptProcessorRef (cleanup_session s) = scriptProcessorRef s"
  "inputAudioContextRef (cleanup_session s) = inputAudioContextRef s"
  "outputAudioContextRef (cleanup_session s) = outputAudioContextRef s"
  "sessionRef (cleanup_session s) = None"
  by (simp_all add: cleanup_session_def split: option.splits)

lemmas cleanup_fields = frameInterval_fields mediaStream_fields scriptProcessor_fields
  inputAudioContext_fields outputAudioContext_fields session_fields

lemma cleanup_refs:
  "frameIntervalRef (cleanup s) = (if frameIntervalRef s = Some 0 then Some 0 else None)"
  "mediaStreamRef (cleanup s) = None"
  "scriptProcessorRef (cleanup s) = None"
  "inputAudioContextRef (cleanup s) = (if inputAudioContextRef s = Some Closed then Some Closed else None)"
  "outputAudioContextRef (cleanup s) = (if outputAudioContextRef s = Some Closed then Some Closed else None)"
  "sessionRef (cleanup s) = None"
  by (simp_all only: cleanup_def cleanup_fields)










lemma cleanup_inv: "well_formed s \<Longrightarrow> scene_inv (cleanup s)"
  by (simp add: scene_inv_def well_formed_def released_def cleanup_refs)

lemma cleanup_sessionState: "cleanup (s\<lparr>sessionState := x\<rparr>) = (cleanup s)\<lparr>sessionState := x\<rparr>"
proof -
  have "\<And>s. cleanup_frameInterval (s\<lparr>sessionState := x\<rparr>) = (cleanup_frameInterval s)\<lparr>sessionState := x\<rparr>"
    by (simp add: cleanup_frameInterval_def split: option.splits)
  moreover have "\<And>s. cleanup_mediaStream (s\<lparr>sessionState := x\<rparr>) = (cleanup_mediaStream s)\<lparr>sessionState := x\<rparr>"
    by (simp add: cleanup_mediaStream_def split: option.splits)
  moreover have "\<And>s. cleanup_scriptProcessor (s\<lparr>sessionState := x\<rparr>) = (cleanup_scriptProcessor s)\<lparr>sessionState := x\<rparr>"
    by (simp add: cleanup_scriptProcessor_def split: option.splits)
  moreover have "\<And>s. cleanup_inputAudioContext (s\<lparr>sessionState := x\<rparr>) = (cleanup_inputAudioContext s)\<lparr>sessionState := x\<rparr>"
    by (simp add: cleanup_inputAudioContext_def split: option.splits)
  moreover have "\<And>s. cleanup_outputAudioContext (s\<lparr>sessionState := x\<rparr>) = (cleanup_outputAudioContext s)\<lparr>sessionState := x\<rparr>"
    by (simp add: cleanup_outputAudioContext_def split: option.splits)
  moreover have "\<And>s. cleanup_session (s\<lparr>sessionState := x\<rparr>) = (cleanup_session s)\<lparr>sessionState := x\<rparr>"
    by (simp add: cleanup_session_def split: option.splits)
  ultimately show ?thesis by (simp only: cleanup_def)
qed

lemma cleanup_error_scene: "cleanup (s\<lparr>error_scene := x\<rparr>) = (cleanup s)\<lparr>error_scene := x\<rparr>"
proof -
  have "\<And>s. cleanup_frameInterval (s\<lparr>error_scene := x\<rparr>) = (cleanup_frameInterval s)\<lparr>error_scene := x\<rparr>"
    by (simp add: cleanup_frameInterval_def split: option.splits)
  moreover have "\<And>s. cleanup_mediaStream (s\<lparr>error_scene := x\<rparr>) = (cleanup_mediaStream s)\<lparr>error_scene := x\<rparr>"
    by (simp add: cleanup_mediaStream_def split: option.splits)
  moreover have "\<And>s. cleanup_scriptProcessor (s\<lparr>error_scene := x\<rparr>) = (cleanup_scriptProcessor s)\<lparr>error_scene := x\<rparr>"
    by (simp add: cleanup_scriptProcessor_def split: option.splits)
  moreover have "\<And>s. cleanup_inputAudioContext (s\<lparr>error_scene := x\<rparr>) = (cleanup_inputAudioContext s)\<lparr>error_scene := x\<rparr>"
    by (simp add: cleanup_inputAudioContext_def split: option.splits)
  moreover have "\<And>s. cleanup_outputAudioContext (s\<lparr>error_scene := x\<rparr>) = (cleanup_outputAudioContext s)\<lparr>error_scene := x\<rparr>"
    by (simp add: cleanup_outputAudioContext_def split: option.splits)
  moreover have "\<And>s. cleanup_session (s\<lparr>error_scene := x\<rparr>) = (cleanup_session s)\<lparr>error_scene := x\<rparr>"
    by (simp add: cleanup_session_def split: option.splits)
  ultimately show ?thesis by (simp only: cleanup_def)
qed

lemma onerror_alt:
  "onerror s = (cleanup s)\<lparr>error_scene := Some ''An error occurred with the connection.'',
                             sessionState := Error\<rparr>"
  by (simp only: onerror_def cleanup_sessionState cleanup_error_scene)

lemma onclose_alt: "onclose s = stopSession s"
  by (simp only: onclose_def stopSession_def cleanup_sessionState)

lemma well_formed_upd:
  "well_formed (s\<lparr>sessionState := x\<rparr>) = well_formed s"
  "well_formed (s\<lparr>error_scene := y\<rparr>) = well_formed s"
  by (simp_all add: well_formed_def)

lemma scene_inv_upd:
  "scene_inv (s\<lparr>sessionState := x\<rparr>) = scene_inv s"
  "scene_inv (s\<lparr>error_scene := y\<rparr>) = scene_inv s"
  by (simp_all add: scene_inv_def released_def well_formed_def)

lemma step_scene_inv:
  assumes "scene_inv s" and "browser_ok e"
  shows "scene_inv (step_scene s e)"
proof (cases e)
  case (MediaSettled granted)
  then show ?thesis using assms(1)
    by (simp add: startCameraAndMic_def scene_inv_def well_formed_def released_def)
next
  case (StartSession outcome)
  show ?thesis
  proof (cases "mediaStreamRef s = None")
    case True
    then show ?thesis using assms(1) StartSession by (simp add: startSession_def scene_inv_upd)
  next
    case False
    then show ?thesis using assms StartSession
      by (cases outcome)
        (simp_all add: startSession_def startSession_failed_def scene_inv_def well_formed_def released_def)
  qed
next
  case (Onopen timer)
  then show ?thesis using assms
    by (simp add: onopen_def scene_inv_def well_formed_def released_def)
next
  case (MessageReceived m t)
  then show ?thesis using assms(1)
    by (simp add: onmessage_received_def onmessage_interrupted_def Let_def scene_inv_def well_formed_def
        released_def split: option.splits sum.splits)
next
  case (AudioDecoded m d)
  then show ?thesis using assms(1)
    by (simp add: onmessage_decoded_def onmessage_interrupted_def Let_def scene_inv_def well_formed_def
        released_def)
next
  case (SourceEnded n)
  then show ?thesis using assms(1)
    by (simp add: source_ended_def scene_inv_def well_formed_def released_def)
next
  case Onerror
  have "well_formed s" using assms(1) by (simp add: scene_inv_def)
  then show ?thesis using Onerror by (simp add: onerror_alt cleanup_inv scene_inv_upd)
next
  case Onclose
  have "well_formed s" using assms(1) by (simp add: scene_inv_def)
  then show ?thesis using Onclose by (simp add: onclose_alt stopSession_def cleanup_inv scene_inv_upd)
next
  case StopSession
  have "well_formed s" using assms(1) by (simp add: scene_inv_def)
  then show ?thesis using StopSession by (simp add: stopSession_def cleanup_inv scene_inv_upd)
next
  case Back
  have "well_formed s" using assms(1) by (simp add: scene_inv_def)
  then have "well_formed ((cleanup s)\<lparr>sessionState := Stopped\<rparr>)"
    using cleanup_inv [of s] by (simp add: scene_inv_def well_formed_upd)
  then show ?thesis using Back by (simp add: stopSession_def cleanup_inv)
next
  case (ContextStateChanged role st)
  then have "st \<noteq> Closed" using assms(2) by simp
  then show ?thesis using assms(1) ContextStateChanged
    by (cases role)
      (auto simp add: context_state_changed_def scene_inv_def well_formed_def released_def
        split: option.splits)
qed

lemma Scene_init_inv: "scene_inv Scene_init"
  by (simp add: scene_inv_def well_formed_def released_def Scene_init_def)

lemma foldl_scene_inv:
  "scene_inv s \<Longrightarrow> list_all browser_ok evs \<Longrightarrow> scene_inv (foldl step_scene s evs)"
  by (induction evs arbitrary: s) (simp_all add: step_scene_inv)

lemma run_scene_inv: "list_all browser_ok evs \<Longrightarrow> scene_inv (run_scene evs)"
  by (simp add: run_scene_def foldl_scene_inv Scene_init_inv)

lemma cleanup_active:
  "cleanup Scene_active = \<lparr>error_scene = None, sessionState = Active, transcription = [],
    sessionRef = None, inputAudioContextRef = None,
    outputAudioContextRef = None, mediaStreamRef = None,
    scriptProcessorRef = None, frameIntervalRef = None,
    nextAudioStartTimeRef = 3, audioSourcesRef = [\<lparr>node_id = 0, start_at = 1, duration = 2\<rparr>],
    nodes_created = 1,
    effects = [NewAudioContext Input 16000, NewAudioContext Output 24000, Connect,
      CreateScriptProcessor, SetInterval 7, SourceStart \<lparr>node_id = 0, start_at = 1, duration = 2\<rparr>,
      ClearInterval 7, StopTracks, DisconnectProcessor, CloseContext Input, CloseContext Output,
      CloseSession]\<rparr>"
  by (simp add: Scene_active_eq cleanup_def cleanup_frameInterval_def cleanup_mediaStream_def
     cleanup_scriptProcessor_def cleanup_inputAudioContext_def cleanup_outputAudioContext_def
     cleanup_session_def)



section \<open>Transport errors and starting without a stream\<close>

lemma quiet_trans: "quiet s s' \<Longrightarrow> quiet s' s'' \<Longrightarrow> quiet s s''"
  by (auto simp: quiet_def)

lemma quiet_emitted: "quiet s s' \<Longrightarrow> \<not> list_ex opens (emitted s s')"
  by (auto simp: quiet_def emitted_def)

lemma cleanup_parts_quiet:
  "quiet s (cleanup_frameInterval s)" "quiet s (cleanup_mediaStream s)"
  "quiet s (cleanup_scriptProcessor s)" "quiet s (cleanup_inputAudioContext s)"
  "quiet s (cleanup_outputAudioContext s)" "quiet s (cleanup_session s)"
  by (simp_all add: quiet_def cleanup_frameInterval_def cleanup_mediaStream_def
      cleanup_scriptProcessor_def cleanup_inputAudioContext_def cleanup_outputAudioContext_def
      cleanup_session_def split: option.splits)

lemma cleanup_quiet: "quiet s (cleanup s)"
proof -
  note q = cleanup_parts_quiet
  have "quiet s (cleanup_mediaStream (cleanup_frameInterval s))"
    by (rule quiet_trans [OF q(1) q(2)])
  then have "quiet s (cleanup_scriptProcessor (cleanup_mediaStream (cleanup_frameInterval s)))"
    by (rule quiet_trans [OF _ q(3)])
  then have "quiet s (cleanup_inputAudioContext (cleanup_scriptProcessor
      (cleanup_mediaStream (cleanup_frameInterval s))))"
    by (rule quiet_trans [OF _ q(4)])
  then have "quiet s (cleanup_outputAudioContext (cleanup_inputAudioContext
      (cleanup_scriptProcessor (cleanup_mediaStream (cleanup_frameInterval s)))))"
    by (rule quiet_trans [OF _ q(5)])
  then have "quiet s (cleanup_session (cleanup_outputAudioContext (cleanup_inputAudioContext
      (cleanup_scriptProcessor (cleanup_mediaStream (cleanup_frameInterval s))))))"
    by (rule quiet_trans [OF _ q(6)])
  then show ?thesis by (simp only: cleanup_def)
qed

lemma opens_SourceStop: "\<not> list_ex opens (map SourceStop ns)"
  by (induction ns) simp_all

lemma onmessage_interrupted_quiet: "quiet s (onmessage_interrupted m s)"
  by (simp add: quiet_def onmessage_interrupted_def opens_SourceStop)

lemma stopSession_quiet: "quiet s (stopSession s)"
proof -
  have "effects (stopSession s) = effects (cleanup s)"
    by (simp add: stopSession_def)
  then show ?thesis using cleanup_quiet [of s] by (simp add: quiet_def)
qed

lemma onerror_quiet: "quiet s (onerror s)"
proof -
  have "effects (onerror s) = effects (cleanup s)"
    by (simp add: onerror_alt)
  then show ?thesis using cleanup_quiet [of s] by (simp add: quiet_def)
qed

lemma step_scene_quiet:
  assumes "\<forall>outcome. e \<noteq> StartSession outcome"
  shows "quiet s (step_scene s e)"
proof (cases e)
  case (MediaSettled granted)
  then show ?thesis by (simp add: startCameraAndMic_def quiet_def)
next
  case (StartSession outcome)
  then show ?thesis using assms by simp
next
  case (Onopen timer)
  then show ?thesis by (simp add: onopen_def quiet_def)
next
  case (MessageReceived m t)
  let ?s1 = "case outputTranscription m of None \<Rightarrow> s
              | Some text \<Rightarrow> s\<lparr>transcription := transcription s @ text\<rparr>"
  have q1: "quiet s ?s1" by (simp add: quiet_def split: option.splits)
  have q2: "quiet ?s1 (onmessage_interrupted m ?s1)"
    by (rule onmessage_interrupted_quiet)
  have q3: "quiet s (onmessage_interrupted m ?s1)"
    by (rule quiet_trans [OF q1 q2])
  have q4: "quiet s (?s1\<lparr>nextAudioStartTimeRef := x\<rparr>)" for x
    by (simp add: quiet_def split: option.splits)
  have "fst (onmessage_received m t s) = ?s1
      \<or> fst (onmessage_received m t s) = ?s1\<lparr>nextAudioStartTimeRef := max (nextAudioStartTimeRef ?s1) t\<rparr>
      \<or> fst (onmessage_received m t s) = onmessage_interrupted m ?s1"
    by (simp add: onmessage_received_def Let_def split: sum.splits)
  then have "quiet s (fst (onmessage_received m t s))"
  proof (elim disjE)
    assume "fst (onmessage_received m t s) = ?s1"
    then show ?thesis using q1 by simp
  next
    assume "fst (onmessage_received m t s) =
      ?s1\<lparr>nextAudioStartTimeRef := max (nextAudioStartTimeRef ?s1) t\<rparr>"
    then show ?thesis using q4 [of "max (nextAudioStartTimeRef ?s1) t"] by simp
  next
    assume "fst (onmessage_received m t s) = onmessage_interrupted m ?s1"
    then show ?thesis using q3 by simp
  qed
  then show ?thesis using MessageReceived by simp
next
  case (AudioDecoded m d)
  let ?n = "\<lparr>node_id = nodes_created s, start_at = nextAudioStartTimeRef s, duration = d\<rparr>"
  let ?s1 = "s\<lparr>nodes_created := nodes_created s + 1, effects := effects s @ [SourceStart ?n],
                 nextAudioStartTimeRef := nextAudioStartTimeRef s + d,
                 audioSourcesRef := audioSourcesRef s @ [?n]\<rparr>"
  have q1: "quiet s ?s1" by (simp add: quiet_def)
  have q2: "quiet ?s1 (onmessage_interrupted m ?s1)"
    by (rule onmessage_interrupted_quiet)
  have "onmessage_decoded m d s = onmessage_interrupted m ?s1"
    by (simp add: onmessage_decoded_def Let_def)
  then have "quiet s (onmessage_decoded m d s)"
    using quiet_trans [OF q1 q2] by simp
  then show ?thesis using AudioDecoded by simp
next
  case (SourceEnded n)
  then show ?thesis by (simp add: source_ended_def quiet_def)
next
  case Onerror
  then show ?thesis by (simp add: onerror_quiet)
next
  case Onclose
  then show ?thesis by (simp add: onclose_alt stopSession_quiet)
next
  case StopSession
  then show ?thesis by (simp add: stopSession_quiet)
next
  case Back
  then show ?thesis
    using quiet_trans [OF stopSession_quiet cleanup_quiet] by simp
next
  case (ContextStateChanged role st)
  then show ?thesis by (cases role) (simp_all add: quiet_def)
qed

lemma onerror_active:
  "onerror Scene_active = \<lparr>error_scene = Some ''An error occurred with the connection.'',
    sessionState = Error, transcription = [],
    sessionRef = None, inputAudioContextRef = None,
    outputAudioContextRef = None, mediaStreamRef = None,
    scriptProcessorRef = None, frameIntervalRef = None,
    nextAudioStartTimeRef = 3, audioSourcesRef = [\<lparr>node_id = 0, start_at = 1, duration = 2\<rparr>],
    nodes_created = 1,
    effects = [NewAudioContext Input 16000, NewAudioContext Output 24000, Connect,
      CreateScriptProcessor, SetInterval 7, SourceStart \<lparr>node_id = 0, start_at = 1, duration = 2\<rparr>,
      ClearInterval 7, StopTracks, DisconnectProcessor, CloseContext Input, CloseContext Output,
      CloseSession]\<rparr>"
  by (simp add: onerror_alt cleanup_active)

text \<open>
  Claim C6. The \<^verbatim>\<open>onerror\<close> callback sets the session state to \<open>Error\<close> and the error
  message, and tears down as stopping does: its result is that of \<^verbatim>\<open>stopSession\<close> but
  for the state \<open>Error\<close> and the message. It opens no audio context and no session,
  and neither does any later event other than the user pressing the start button:
  nothing reconnects by itself.
\<close>

theorem onerror_tears_down:
  "sessionState (onerror s) = Error
   \<and> error_scene (onerror s) = Some ''An error occurred with the connection.''
   \<and> onerror s = (stopSession s)\<lparr>error_scene := Some ''An error occurred with the connection.'',
                                   sessionState := Error\<rparr>
   \<and> \<not> list_ex opens (emitted s (onerror s))
   \<and> ((\<forall>outcome. e \<noteq> StartSession outcome) \<longrightarrow>
        \<not> list_ex opens (emitted s' (step_scene s' e)))"
proof (intro conjI impI)
  show "sessionState (onerror s) = Error"
    by (simp add: onerror_alt)
  show "error_scene (onerror s) = Some ''An error occurred with the connection.''"
    by (simp add: onerror_alt)
  show "onerror s = (stopSession s)\<lparr>error_scene := Some ''An error occurred with the connection.'',
                                   sessionState := Error\<rparr>"
    by (simp add: onerror_alt stopSession_def)
  show "\<not> list_ex opens (emitted s (onerror s))"
    by (rule quiet_emitted [OF onerror_quiet])
next
  assume "\<forall>outcome. e \<noteq> StartSession outcome"
  then show "\<not> list_ex opens (emitted s' (step_scene s' e))"
    by (rule quiet_emitted [OF step_scene_quiet])
qed

theorem onerror_tears_down_witness:
  "sessionState Scene_active = Active
   \<and> sessionState (onerror Scene_active) = Error
   \<and> emitted Scene_active (onerror Scene_active) =
       [ClearInterval 7, StopTracks, DisconnectProcessor, CloseContext Input, CloseContext Output,
        CloseSession]
   \<and> \<not> list_ex opens (emitted (onerror Scene_active) (step_scene (onerror Scene_active) Onclose))"
proof -
  have a: "sessionState Scene_active = Active"
    by (simp add: Scene_active_eq)
  have m: "emitted Scene_active (onerror Scene_active) =
       [ClearInterval 7, StopTracks, DisconnectProcessor, CloseContext Input, CloseContext Output,
        CloseSession]"
  proof -
    have "effects (onerror Scene_active) =
        [NewAudioContext Input 16000, NewAudioContext Output 24000, Connect,
         CreateScriptProcessor, SetInterval 7, SourceStart \<lparr>node_id = 0, start_at = 1, duration = 2\<rparr>,
         ClearInterval 7, StopTracks, DisconnectProcessor, CloseContext Input, CloseContext Output,
         CloseSession]"
      by (simp add: onerror_active)
    moreover have "length (effects Scene_active) = 6"
      by (simp add: Scene_active_eq)
    ultimately show ?thesis by (simp add: emitted_def)
  qed
  have n: "\<forall>outcome. Onclose \<noteq> StartSession outcome"
    by simp
  note t = onerror_tears_down [of Scene_active Onclose "onerror Scene_active"]
  have c1: "sessionState (onerror Scene_active) = Error"
    using t by blast
  have c2: "\<not> list_ex opens (emitted (onerror Scene_active) (step_scene (onerror Scene_active) Onclose))"
    using t n by blast
  show ?thesis by (intro conjI a c1 m c2)
qed

text \<open>
  Claim C10. When \<^verbatim>\<open>startSession\<close> is invoked while the media stream ref is null, it
  sets the error message ``Media stream not available.'' and the session state
  \<open>Error\<close> and changes nothing else, whatever the browser would have done: no call is
  made, so no audio context and no session is opened. In every state the component
  reaches with the media stream ref null, the other resource refs are null as well,
  before the call and after it.
\<close>

theorem startSession_without_stream:
  "(mediaStreamRef s = None \<longrightarrow>
      startSession outcome s =
        s\<lparr>error_scene := Some ''Media stream not available.'', sessionState := Error\<rparr>)
   \<and> (list_all browser_ok evs \<and> mediaStreamRef (run_scene evs) = None \<longrightarrow>
        error_scene (startSession outcome (run_scene evs)) = Some ''Media stream not available.''
        \<and> sessionState (startSession outcome (run_scene evs)) = Error
        \<and> effects (startSession outcome (run_scene evs)) = effects (run_scene evs)
        \<and> inputAudioContextRef (startSession outcome (run_scene evs)) = None
        \<and> outputAudioContextRef (startSession outcome (run_scene evs)) = None
        \<and> sessionRef (startSession outcome (run_scene evs)) = None
        \<and> scriptProcessorRef (startSession outcome (run_scene evs)) = None
        \<and> frameIntervalRef (startSession outcome (run_scene evs)) = None
        \<and> mediaStreamRef (startSession outcome (run_scene evs)) = None)"
proof (intro conjI impI)
  assume "mediaStreamRef s = None"
  then show "startSession outcome s =
        s\<lparr>error_scene := Some ''Media stream not available.'', sessionState := Error\<rparr>"
    by (simp add: startSession_def)
next
  assume a: "list_all browser_ok evs \<and> mediaStreamRef (run_scene evs) = None"
  then have r: "released (run_scene evs)"
    using run_scene_inv [of evs] by (simp add: scene_inv_def)
  have e: "startSession outcome (run_scene evs) =
      (run_scene evs)\<lparr>error_scene := Some ''Media stream not available.'', sessionState := Error\<rparr>"
    using a by (simp add: startSession_def)
  show "error_scene (startSession outcome (run_scene evs)) = Some ''Media stream not available.''"
    by (simp add: e)
  show "sessionState (startSession outcome (run_scene evs)) = Error"
    by (simp add: e)
  show "effects (startSession outcome (run_scene evs)) = effects (run_scene evs)"
    by (simp add: e)
  from r show "inputAudioContextRef (startSession outcome (run_scene evs)) = None"
    by (simp add: e released_def)
  from r show "outputAudioContextRef (startSession outcome (run_scene evs)) = None"
    by (simp add: e released_def)
  from r show "sessionRef (startSession outcome (run_scene evs)) = None"
    by (simp add: e released_def)
  from r show "scriptProcessorRef (startSession outcome (run_scene evs)) = None"
    by (simp add: e released_def)
  from r show "frameIntervalRef (startSession outcome (run_scene evs)) = None"
    by (simp add: e released_def)
  from r show "mediaStreamRef (startSession outcome (run_scene evs)) = None"
    by (simp add: e released_def)
qed

theorem startSession_without_stream_witness:
  "list_all browser_ok [MediaSettled False]
   \<and> mediaStreamRef (run_scene [MediaSettled False]) = None
   \<and> startSession (Opened Running Running) (run_scene [MediaSettled False]) =
       (run_scene [MediaSettled False])\<lparr>error_scene := Some ''Media stream not available.'',
                                         sessionState := Error\<rparr>
   \<and> effects (startSession (Opened Running Running) (run_scene [MediaSettled False])) = []
   \<and> inputAudioContextRef (startSession (Opened Running Running) (run_scene [MediaSettled False])) = None
   \<and> sessionRef (startSession (Opened Running Running) (run_scene [MediaSettled False])) = None"
proof -
  have b: "list_all browser_ok [MediaSettled False]"
    by simp
  have m: "mediaStreamRef (run_scene [MediaSettled False]) = None"
    and f: "effects (run_scene [MediaSettled False]) = []"
    by (simp_all add: run_scene_def Scene_init_def startCameraAndMic_def)
  note t = startSession_without_stream
    [of "run_scene [MediaSettled False]" "Opened Running Running" "[MediaSettled False]"]
  have c1: "startSession (Opened Running Running) (run_scene [MediaSettled False]) =
       (run_scene [MediaSettled False])\<lparr>error_scene := Some ''Media stream not available.'',
                                         sessionState := Error\<rparr>"
    using t m by blast
  have c2: "effects (startSession (Opened Running Running) (run_scene [MediaSettled False])) =
      effects (run_scene [MediaSettled False])"
    using t b m by blast
  have c3: "inputAudioContextRef (startSession (Opened Running Running) (run_scene [MediaSettled False])) = None"
    using t b m by blast
  have c4: "sessionRef (startSession (Opened Running Running) (run_scene [MediaSettled False])) = None"
    using t b m by blast
  have c2': "effects (startSession (Opened Running Running) (run_scene [MediaSettled False])) = []"
    using c2 f by (rule trans)
  show ?thesis by (intro conjI b m c1 c2' c3 c4)
qed

section \<open>Late responses of the navigation loop\<close>

lemma commit_fields:
  "isNavigating (commit s) = isNavigating s"
  "isNavigatingRef (commit s) = isNavigating s"
  "locationPermission (commit s) = locationPermission s"
  "location_calls (commit s) = location_calls s"
  "onchange_registered (commit s) = onchange_registered s"
  "locationWatcherId (commit s) = locationWatcherId s"
  "isLoading (commit s) = isLoading s"
  "instruction (commit s) = instruction s"
  "speech_maps (commit s) = speech_maps s"
  "error_maps (commit s) = error_maps s"
  "cameras_awaited (commit s) = cameras_awaited s"
  by (simp_all add: commit_def Let_def)

lemma location_effect_cleanup_isNavigating:
  "isNavigating (location_effect_cleanup s) = isNavigating s"
  by (simp add: location_effect_cleanup_def split: option.splits)

lemma setLocationPermission_isNavigating:
  "isNavigating (setLocationPermission p w s) = isNavigating s"
  by (simp add: setLocationPermission_def location_effect_def location_effect_cleanup_isNavigating)

lemma cleanup_maps_isNavigating: "isNavigating (cleanup_maps s) = isNavigating s"
  by (simp add: cleanup_maps_def Let_def split: option.splits)

lemma handleStopNavigation_isNavigating: "\<not> isNavigating (handleStopNavigation s)"
  by (simp add: handleStopNavigation_def cleanup_maps_isNavigating)

lemma handle_control_isNavigating:
  "c \<noteq> StartButton \<Longrightarrow> \<not> isNavigating s \<Longrightarrow> \<not> isNavigating (handle_control c s)"
  by (cases c)
    (simp_all add: handleBack_def location_effect_cleanup_isNavigating cleanup_maps_isNavigating
      requestLocationPermission_def handleStopNavigation_isNavigating)

lemma handle_maps_isNavigating:
  assumes "\<not> starts_navigation e" and "\<not> isNavigating s"
  shows "\<not> isNavigating (handle_maps s e)"
proof (cases e)
  case (PermissionChanged st w)
  then show ?thesis using assms(2) by (simp add: setLocationPermission_isNavigating)
next
  case (PositionFound lat lng)
  then show ?thesis using assms(2) by (simp add: successCallback_def)
next
  case PositionFailed
  then show ?thesis using assms(2) by (simp add: errorCallback_def)
next
  case (EnableLocationFailed d)
  then show ?thesis using assms(2) by (simp add: requestLocationPermission_error_def)
next
  case (Clicked c)
  then have "c \<noteq> StartButton" using assms(1) by auto
  then show ?thesis using assms(2) Clicked by (simp add: handle_control_isNavigating)
next
  case (DestinationTyped str)
  then show ?thesis using assms(2) by simp
next
  case (CameraSettled ok)
  then show ?thesis using assms(2) by (simp add: handleStartNavigation_camera_def speak_def Let_def)
next
  case (StartTimeoutFired timer)
  then show ?thesis using assms(2) by simp
next
  case FrameEncoded
  then show ?thesis using assms(2) by (simp add: getNavigationInstruction_request_def)
next
  case (Responded r)
  then show ?thesis using assms(2)
    by (cases r) (simp_all add: getNavigationInstruction_response_def speak_def)
qed

lemma step_maps_off:
  assumes "\<not> starts_navigation e" and "\<not> isNavigating s"
  shows "\<not> isNavigating (step_maps s e) \<and> \<not> isNavigatingRef (step_maps s e)"
  using handle_maps_isNavigating [OF assms] by (simp add: step_maps_def commit_fields)

lemma foldl_maps_off:
  assumes "list_all (\<lambda>e. \<not> starts_navigation e) evs" and "\<not> isNavigating s" and "\<not> isNavigatingRef s"
  shows "\<not> isNavigating (foldl step_maps s evs) \<and> \<not> isNavigatingRef (foldl step_maps s evs)"
  using assms
proof (induction evs arbitrary: s)
  case Nil
  then show ?case by simp
next
  case (Cons e evs)
  then have "\<not> starts_navigation e" and "list_all (\<lambda>e. \<not> starts_navigation e) evs"
    by simp_all
  moreover from step_maps_off [OF \<open>\<not> starts_navigation e\<close> Cons.prems(2)]
  have "\<not> isNavigating (step_maps s e)" and "\<not> isNavigatingRef (step_maps s e)"
    by simp_all
  ultimately show ?case using Cons.IH [of "step_maps s e"] by simp
qed

lemma response_ignored: "\<not> isNavigatingRef s \<Longrightarrow> getNavigationInstruction_response r s = s"
  by (cases r) (simp_all add: getNavigationInstruction_response_def)

lemma mount_granted:
  "mount (QueryResolved PermissionGranted) 3 =
     \<lparr>destination = [], isNavigating = False,
      instruction = ''Enter a destination to begin.'', currentLocation = None,
      error_maps = None, isLoading = True, locationPermission = Granted,
      videoRef_maps = False, canvasRef_maps = False, intervalRef = None,
      aiRef = True, locationWatcherId = Some 3, isNavigatingRef = False,
      speech_maps = [],
      location_calls = [PermissionsQuery, GetCurrentPosition, WatchPosition],
      onchange_registered = True, cameras_awaited = 0\<rparr>"
  by (simp add: mount_def Maps_init_def location_effect_def checkLocationPermission_def
      setLocationPermission_def location_effect_cleanup_def commit_def render_maps_def)

lemma Library_typed: "\<not> blank Library" "Library \<noteq> []"
  by (simp_all add: blank_def is_space_def Library_def)

lemma Maps_navigating_eq:
  "Maps_navigating =
    \<lparr>destination = Library, isNavigating = True,
      instruction = ''Thinking...'', currentLocation = Some (48, 2),
      error_maps = None, isLoading = False, locationPermission = Granted,
      videoRef_maps = True, canvasRef_maps = True, intervalRef = Some 5,
      aiRef = True, locationWatcherId = Some 3, isNavigatingRef = True,
      speech_maps = [Cancel, Speak ''Starting navigation...''],
      location_calls = [PermissionsQuery, GetCurrentPosition, WatchPosition],
      onchange_registered = True, cameras_awaited = 0\<rparr>"
  by (simp add: Maps_navigating_def mount_granted step_maps_def commit_def render_maps_def
      shown_error_def successCallback_def handleStartNavigation_def Library_typed
      handleStartNavigation_camera_def speak_def getNavigationInstruction_request_def)

lemma Maps_stopped_eq:
  "Maps_stopped =
    \<lparr>destination = Library, isNavigating = False,
      instruction = ''Navigation stopped. Enter a destination to begin again.'',
      currentLocation = Some (48, 2), error_maps = None, isLoading = False,
      locationPermission = Granted, videoRef_maps = False,
      canvasRef_maps = False, intervalRef = None, aiRef = True,
      locationWatcherId = Some 3, isNavigatingRef = False,
      speech_maps = [Cancel, Speak ''Starting navigation...'', Cancel],
      location_calls = [PermissionsQuery, GetCurrentPosition, WatchPosition],
      onchange_registered = True, cameras_awaited = 0\<rparr>"
  by (simp add: Maps_stopped_def Maps_navigating_eq step_maps_def commit_def render_maps_def
      shown_error_def handleStopNavigation_def cleanup_maps_def)

lemma Maps_restarted_eq:
  "Maps_restarted =
    \<lparr>destination = Library, isNavigating = True,
      instruction = ''Navigation stopped. Enter a destination to begin again.'',
      currentLocation = Some (48, 2), error_maps = None, isLoading = False,
      locationPermission = Granted, videoRef_maps = True,
      canvasRef_maps = True, intervalRef = None, aiRef = True,
      locationWatcherId = Some 3, isNavigatingRef = True,
      speech_maps = [Cancel, Speak ''Starting navigation...'', Cancel],
      location_calls = [PermissionsQuery, GetCurrentPosition, WatchPosition],
      onchange_registered = True, cameras_awaited = 1\<rparr>"
  by (simp add: Maps_restarted_def Maps_stopped_eq step_maps_def commit_def render_maps_def
      shown_error_def handleStartNavigation_def Library_typed)

lemma Maps_stopped_alt: "Maps_stopped = commit (handleStopNavigation Maps_navigating)"
  by (simp add: Maps_stopped_def step_maps_def Maps_navigating_eq render_maps_def)

text \<open>
  Claim C5, as stated, fails. A request is sent while navigating; \<^verbatim>\<open>handleStopNavigation\<close>
  is called; the user starts navigation again; then the response of the old request
  arrives. It arrives after \<^verbatim>\<open>handleStopNavigation\<close> was called, and it replaces the
  displayed instruction and is spoken, because the flag is true again.
\<close>

theorem late_response_after_restart:
  "Maps_stopped = commit (handleStopNavigation Maps_navigating)
   \<and> Maps_restarted = step_maps Maps_stopped (Clicked StartButton)
   \<and> instruction Maps_restarted = ''Navigation stopped. Enter a destination to begin again.''
   \<and> instruction (step_maps Maps_restarted (Responded (Success ''Turn left''))) = ''Turn left''
   \<and> speech_maps (step_maps Maps_restarted (Responded (Success ''Turn left''))) =
        speech_maps Maps_restarted @ [Cancel, Speak ''Turn left'']"
proof -
  have "instruction Maps_restarted = ''Navigation stopped. Enter a destination to begin again.''"
    by (simp add: Maps_restarted_eq)
  moreover have "instruction (step_maps Maps_restarted (Responded (Success ''Turn left''))) = ''Turn left''"
    by (simp add: Maps_restarted_eq step_maps_def commit_fields getNavigationInstruction_response_def
        speak_def)
  moreover have "speech_maps (step_maps Maps_restarted (Responded (Success ''Turn left''))) =
        speech_maps Maps_restarted @ [Cancel, Speak ''Turn left'']"
    by (simp add: Maps_restarted_eq step_maps_def commit_fields getNavigationInstruction_response_def
        speak_def)
  ultimately show ?thesis
    using Maps_stopped_alt Maps_restarted_def by blast
qed

text \<open>
  Claim C5, amended. A response, success or failure, that arrives after
  \<^verbatim>\<open>handleStopNavigation\<close> has been called and before navigation is started again
  neither changes the displayed instruction nor triggers speech, whatever else has
  happened in between: the third part of \<^verbatim>\<open>getNavigationInstruction\<close> leaves the state
  as it is whenever the liveness flag is false at that moment.
\<close>

theorem late_response_ignored:
  "(list_all (\<lambda>e. \<not> starts_navigation e) evs \<longrightarrow>
      \<not> isNavigatingRef (foldl step_maps (commit (handleStopNavigation s)) evs)
      \<and> getNavigationInstruction_response r (foldl step_maps (commit (handleStopNavigation s)) evs)
          = foldl step_maps (commit (handleStopNavigation s)) evs
      \<and> instruction (step_maps (foldl step_maps (commit (handleStopNavigation s)) evs) (Responded r))
          = instruction (foldl step_maps (commit (handleStopNavigation s)) evs)
      \<and> speech_maps (step_maps (foldl step_maps (commit (handleStopNavigation s)) evs) (Responded r))
          = speech_maps (foldl step_maps (commit (handleStopNavigation s)) evs))
   \<and> (\<not> isNavigatingRef s \<longrightarrow> getNavigationInstruction_response r s = s)"
proof (intro conjI impI)
  assume a: "list_all (\<lambda>e. \<not> starts_navigation e) evs"
  let ?s0 = "commit (handleStopNavigation s)"
  have "\<not> isNavigating ?s0" and "\<not> isNavigatingRef ?s0"
    by (simp_all add: commit_fields handleStopNavigation_isNavigating)
  from foldl_maps_off [OF a this]
  show off: "\<not> isNavigatingRef (foldl step_maps ?s0 evs)" by simp
  then show same: "getNavigationInstruction_response r (foldl step_maps ?s0 evs) = foldl step_maps ?s0 evs"
    by (rule response_ignored)
  show "instruction (step_maps (foldl step_maps ?s0 evs) (Responded r))
          = instruction (foldl step_maps ?s0 evs)"
    by (simp add: step_maps_def commit_fields same)
  show "speech_maps (step_maps (foldl step_maps ?s0 evs) (Responded r))
          = speech_maps (foldl step_maps ?s0 evs)"
    by (simp add: step_maps_def commit_fields same)
next
  assume "\<not> isNavigatingRef s"
  then show "getNavigationInstruction_response r s = s"
    by (rule response_ignored)
qed

theorem late_response_ignored_witness:
  "list_all (\<lambda>e. \<not> starts_navigation e) [FrameEncoded, PositionFound 49 2]
   \<and> isNavigatingRef Maps_navigating
   \<and> \<not> isNavigatingRef (foldl step_maps Maps_stopped [FrameEncoded, PositionFound 49 2])
   \<and> instruction (step_maps (foldl step_maps Maps_stopped [FrameEncoded, PositionFound 49 2])
        (Responded (Success ''Turn left'')))
       = instruction (foldl step_maps Maps_stopped [FrameEncoded, PositionFound 49 2])
   \<and> speech_maps (step_maps (foldl step_maps Maps_stopped [FrameEncoded, PositionFound 49 2])
        (Responded (Success ''Turn left'')))
       = speech_maps (foldl step_maps Maps_stopped [FrameEncoded, PositionFound 49 2])"
proof -
  have a: "list_all (\<lambda>e. \<not> starts_navigation e) [FrameEncoded, PositionFound 49 2]"
    by simp
  have n: "isNavigatingRef Maps_navigating"
    by (simp add: Maps_navigating_eq)
  note t = late_response_ignored
    [of "[FrameEncoded, PositionFound 49 2]" Maps_navigating "Success ''Turn left''"]
  have "\<not> isNavigatingRef (foldl step_maps (commit (handleStopNavigation Maps_navigating))
          [FrameEncoded, PositionFound 49 2])
      \<and> instruction (step_maps (foldl step_maps (commit (handleStopNavigation Maps_navigating))
          [FrameEncoded, PositionFound 49 2]) (Responded (Success ''Turn left'')))
          = instruction (foldl step_maps (commit (handleStopNavigation Maps_navigating))
              [FrameEncoded, PositionFound 49 2])
      \<and> speech_maps (step_maps (foldl step_maps (commit (handleStopNavigation Maps_navigating))
          [FrameEncoded, PositionFound 49 2]) (Responded (Success ''Turn left'')))
          = speech_maps (foldl step_maps (commit (handleStopNavigation Maps_navigating))
              [FrameEncoded, PositionFound 49 2])"
    using t a by blast
  then have c: "\<not> isNavigatingRef (foldl step_maps Maps_stopped [FrameEncoded, PositionFound 49 2])
      \<and> instruction (step_maps (foldl step_maps Maps_stopped [FrameEncoded, PositionFound 49 2])
            (Responded (Success ''Turn left'')))
          = instruction (foldl step_maps Maps_stopped [FrameEncoded, PositionFound 49 2])
      \<and> speech_maps (step_maps (foldl step_maps Maps_stopped [FrameEncoded, PositionFound 49 2])
            (Responded (Success ''Turn left'')))
          = speech_maps (foldl step_maps Maps_stopped [FrameEncoded, PositionFound 49 2])"
    unfolding Maps_stopped_alt .
  from a n c show ?thesis by (intro conjI) simp_all
qed

section \<open>The denied permission\<close>

lemma mount_unsupported:
  "mount GeolocationUnsupported w =
     \<lparr>destination = [], isNavigating = False,
      instruction = ''Enter a destination to begin.'', currentLocation = None,
      error_maps = Some ''Geolocation is not supported by your browser.'',
      isLoading = False, locationPermission = Denied, videoRef_maps = False,
      canvasRef_maps = False, intervalRef = None, aiRef = True,
      locationWatcherId = None, isNavigatingRef = False, speech_maps = [],
      location_calls = [], onchange_registered = False, cameras_awaited = 0\<rparr>"
  by (simp add: mount_def Maps_init_def location_effect_def checkLocationPermission_def
      setLocationPermission_def location_effect_cleanup_def commit_def render_maps_def)

lemma mount_denied:
  "mount (QueryResolved PermissionDenied) w =
     \<lparr>destination = [], isNavigating = False,
      instruction = ''Enter a destination to begin.'', currentLocation = None,
      error_maps = None, isLoading = False, locationPermission = Denied,
      videoRef_maps = False, canvasRef_maps = False, intervalRef = None,
      aiRef = True, locationWatcherId = None, isNavigatingRef = False,
      speech_maps = [], location_calls = [PermissionsQuery],
      onchange_registered = True, cameras_awaited = 0\<rparr>"
  by (simp add: mount_def Maps_init_def location_effect_def checkLocationPermission_def
      setLocationPermission_def location_effect_cleanup_def commit_def render_maps_def)

lemma render_denied:
  "locationPermission s = Denied \<Longrightarrow> set (controls (render_maps s)) \<subseteq> {BackButton}"
  by (simp add: render_maps_def)

lemma cleanup_maps_fields:
  "locationPermission (cleanup_maps s) = locationPermission s"
  "location_calls (cleanup_maps s) = location_calls s"
  "onchange_registered (cleanup_maps s) = onchange_registered s"
  "locationWatcherId (cleanup_maps s) = locationWatcherId s"
  "isLoading (cleanup_maps s) = isLoading s"
  "error_maps (cleanup_maps s) = error_maps s"
  "cameras_awaited (cleanup_maps s) = cameras_awaited s"
  by (simp_all add: cleanup_maps_def Let_def split: option.splits)

lemma location_effect_cleanup_fields:
  "locationPermission (location_effect_cleanup s) = locationPermission s"
  "filter is_request (location_calls (location_effect_cleanup s)) = filter is_request (location_calls s)"
  "locationWatcherId s = None \<Longrightarrow> location_effect_cleanup s = s"
  by (simp_all add: location_effect_cleanup_def split: option.splits)

lemma handleBack_fields:
  "locationPermission (handleBack s) = locationPermission s"
  "filter is_request (location_calls (handleBack s)) = filter is_request (location_calls s)"
  by (simp_all add: handleBack_def location_effect_cleanup_fields cleanup_maps_fields)

lemma handleBack_unwatched:
  assumes "locationWatcherId s = None"
  shows "handleBack s = cleanup_maps s"
  using assms by (simp add: handleBack_def location_effect_cleanup_fields cleanup_maps_fields)

text \<open>One step in the denied state, the browser not reporting a change of the permission.\<close>

lemma handle_maps_denied:
  assumes "locationPermission s = Denied" and "\<not> permission_change e"
  shows "locationPermission (handle_maps s e) = Denied
    \<and> filter is_request (location_calls (handle_maps s e)) = filter is_request (location_calls s)"
proof (cases e)
  case (PermissionChanged st w)
  then show ?thesis using assms by simp
next
  case (PositionFound lat lng)
  then show ?thesis using assms(1) by (simp add: successCallback_def)
next
  case PositionFailed
  then show ?thesis using assms(1) by (simp add: errorCallback_def)
next
  case (EnableLocationFailed d)
  then show ?thesis using assms(1) by (simp add: requestLocationPermission_error_def)
next
  case (Clicked c)
  show ?thesis
  proof (cases "c \<in> set (controls (render_maps s))")
    case True
    then have "c = BackButton" using render_denied [OF assms(1)] by auto
    then show ?thesis using True Clicked assms(1) by (simp add: handleBack_fields)
  next
    case False
    then show ?thesis using Clicked assms(1) by simp
  qed
next
  case (DestinationTyped str)
  have "DestinationInput \<notin> set (controls (render_maps s))"
    using render_denied [OF assms(1)] by auto
  then show ?thesis using DestinationTyped assms(1) by simp
next
  case (CameraSettled ok)
  then show ?thesis using assms(1)
    by (simp add: handleStartNavigation_camera_def speak_def Let_def)
next
  case (StartTimeoutFired timer)
  then show ?thesis using assms(1) by simp
next
  case FrameEncoded
  then show ?thesis using assms(1) by (simp add: getNavigationInstruction_request_def)
next
  case (Responded r)
  then show ?thesis using assms(1)
    by (cases r) (simp_all add: getNavigationInstruction_response_def speak_def)
qed

lemma foldl_maps_denied:
  assumes "locationPermission s = Denied" and "list_all (\<lambda>e. \<not> permission_change e) evs"
  shows "locationPermission (foldl step_maps s evs) = Denied
    \<and> filter is_request (location_calls (foldl step_maps s evs)) = filter is_request (location_calls s)"
  using assms
proof (induction evs arbitrary: s)
  case Nil
  then show ?case by simp
next
  case (Cons e evs)
  then have e: "\<not> permission_change e"
    and evs: "list_all (\<lambda>e. \<not> permission_change e) evs"
    by simp_all
  have "locationPermission (step_maps s e) = Denied"
    and "filter is_request (location_calls (step_maps s e)) = filter is_request (location_calls s)"
    using handle_maps_denied [OF Cons.prems(1) e]
    by (simp_all add: step_maps_def commit_fields)
  then show ?case using Cons.IH [OF _ evs, of "step_maps s e"] by simp
qed

text \<open>
  One step in the denied state with nothing outstanding: unless the browser reports a
  change of the permission to a component that listens, nothing that the screen shows
  changes and no call is made.
\<close>

lemma handle_maps_denied_inv:
  assumes "denied_inv s" and "\<not> permission_change e \<or> \<not> onchange_registered s"
  shows "denied_inv (handle_maps s e) \<and> error_maps (handle_maps s e) = error_maps s
    \<and> location_calls (handle_maps s e) = location_calls s
    \<and> onchange_registered (handle_maps s e) = onchange_registered s"
proof -
  have d: "locationPermission s = Denied" and l: "\<not> isLoading s" and w: "locationWatcherId s = None"
    and c: "cameras_awaited s = 0" and p: "WatchPosition \<notin> set (location_calls s)"
    and q: "RequestCurrentPosition \<notin> set (location_calls s)"
    using assms(1) by (simp_all add: denied_inv_def)
  show ?thesis
  proof (cases e)
    case (PermissionChanged st w)
    then show ?thesis using assms by simp
  next
    case (PositionFound lat lng)
    then show ?thesis using assms(1) p by simp
  next
    case PositionFailed
    then show ?thesis using assms(1) p by simp
  next
    case (EnableLocationFailed x)
    then show ?thesis using assms(1) q by simp
  next
    case (Clicked b)
    show ?thesis
    proof (cases "b \<in> set (controls (render_maps s))")
      case True
      then have "b = BackButton" using render_denied [OF d] by auto
      then show ?thesis using True Clicked assms(1) w
        by (simp add: handleBack_unwatched denied_inv_def cleanup_maps_fields)
    next
      case False
      then show ?thesis using Clicked assms(1) by simp
    qed
  next
    case (DestinationTyped str)
    have "DestinationInput \<notin> set (controls (render_maps s))"
      using render_denied [OF d] by auto
    then show ?thesis using DestinationTyped assms(1) by simp
  next
    case (CameraSettled ok)
    then show ?thesis using assms(1) c by simp
  next
    case (StartTimeoutFired timer)
    then show ?thesis using assms(1) by (simp add: denied_inv_def)
  next
    case FrameEncoded
    then show ?thesis using assms(1)
      by (simp add: getNavigationInstruction_request_def denied_inv_def)
  next
    case (Responded r)
    then show ?thesis using assms(1)
      by (cases r) (simp_all add: getNavigationInstruction_response_def speak_def denied_inv_def)
  qed
qed

lemma denied_inv_commit: "denied_inv (commit s) = denied_inv s"
  by (simp add: denied_inv_def commit_fields)

lemma foldl_maps_denied_inv:
  assumes "denied_inv s"
    and "list_all (\<lambda>e. \<not> permission_change e) evs \<or> \<not> onchange_registered s"
  shows "denied_inv (foldl step_maps s evs)
    \<and> error_maps (foldl step_maps s evs) = error_maps s
    \<and> location_calls (foldl step_maps s evs) = location_calls s"
  using assms
proof (induction evs arbitrary: s)
  case Nil
  then show ?case by simp
next
  case (Cons e evs)
  have e: "\<not> permission_change e \<or> \<not> onchange_registered s"
    using Cons.prems(2) by auto
  note h = handle_maps_denied_inv [OF Cons.prems(1) e]
  have 1: "denied_inv (step_maps s e)"
    using h by (simp add: step_maps_def denied_inv_commit)
  have 2: "error_maps (step_maps s e) = error_maps s"
    "location_calls (step_maps s e) = location_calls s"
    "onchange_registered (step_maps s e) = onchange_registered s"
    using h by (simp_all add: step_maps_def commit_fields)
  have 3: "list_all (\<lambda>e. \<not> permission_change e) evs \<or> \<not> onchange_registered (step_maps s e)"
    using Cons.prems(2) 2(3) by auto
  from Cons.IH [OF 1 3] 2 show ?case by simp
qed

lemma denied_inv_render:
  "denied_inv s \<Longrightarrow> render_maps s = LocationAccessDenied (shown_error s)"
  by (simp add: denied_inv_def render_maps_def)

text \<open>
  Claim C8, as stated, fails. A browser without geolocation and a browser that reports
  the permission as denied leave the component in the same state of the permission
  state machine, \<open>Denied\<close>, and on the same screen, ``Location Access Denied'', with the
  same single control. There is no state and no screen of its own for the unsupported
  case; the two differ in the error paragraph of that one screen.
\<close>

theorem unsupported_is_denied_state:
  "locationPermission (mount GeolocationUnsupported 1) = Denied
   \<and> locationPermission (mount (QueryResolved PermissionDenied) 1) = Denied
   \<and> render_maps (mount GeolocationUnsupported 1) =
       LocationAccessDenied (Some ''Geolocation is not supported by your browser.'')
   \<and> render_maps (mount (QueryResolved PermissionDenied) 1) = LocationAccessDenied None
   \<and> controls (render_maps (mount GeolocationUnsupported 1)) =
       controls (render_maps (mount (QueryResolved PermissionDenied) 1))"
  by (simp add: mount_unsupported mount_denied render_maps_def shown_error_def)

text \<open>
  Claim C8, amended. Geolocation being unsupported is put into the same permission
  state and shown on the same screen as a denial of the permission, and the two are
  told apart by the error message on that screen, which stays as it is: in the
  unsupported case the screen is ``Location Access Denied'' with the message
  ``Geolocation is not supported by your browser.'', whatever happens afterwards, and
  no call on the location or permission interfaces is ever made; after a denial found
  at mount the screen is ``Location Access Denied'' without a message, for as long as
  the browser reports no change of the permission, and no call is made beyond the
  permission query of the mount. In general, from any state in which the permission
  is \<open>Denied\<close>, as long as the browser reports no change of the permission, it stays
  \<open>Denied\<close>, no request for the position or the permission is made, and the only
  control offered is the back button: the denied state is terminal and is not retried.
\<close>

theorem denied_is_terminal:
  "render_maps (foldl step_maps (mount GeolocationUnsupported w) evs) =
      LocationAccessDenied (Some ''Geolocation is not supported by your browser.'')
   \<and> location_calls (foldl step_maps (mount GeolocationUnsupported w) evs) = []
   \<and> (list_all (\<lambda>e. \<not> permission_change e) evs \<longrightarrow>
        render_maps (foldl step_maps (mount (QueryResolved PermissionDenied) w) evs) =
          LocationAccessDenied None
        \<and> render_maps (foldl step_maps (mount (QueryResolved PermissionDenied) w) evs) \<noteq>
            render_maps (foldl step_maps (mount GeolocationUnsupported w) evs)
        \<and> location_calls (foldl step_maps (mount (QueryResolved PermissionDenied) w) evs) =
            [PermissionsQuery])
   \<and> (locationPermission s = Denied \<and> list_all (\<lambda>e. \<not> permission_change e) evs \<longrightarrow>
        locationPermission (foldl step_maps s evs) = Denied
        \<and> filter is_request (location_calls (foldl step_maps s evs))
            = filter is_request (location_calls s)
        \<and> set (controls (render_maps (foldl step_maps s evs))) \<subseteq> {BackButton})"
proof -
  let ?u = "foldl step_maps (mount GeolocationUnsupported w) evs"
  let ?d = "foldl step_maps (mount (QueryResolved PermissionDenied) w) evs"
  have u: "denied_inv (mount GeolocationUnsupported w)"
    "\<not> onchange_registered (mount GeolocationUnsupported w)"
    by (simp_all add: mount_unsupported denied_inv_def)
  have fu: "denied_inv ?u \<and> error_maps ?u = error_maps (mount GeolocationUnsupported w)
      \<and> location_calls ?u = location_calls (mount GeolocationUnsupported w)"
    by (rule foldl_maps_denied_inv) (simp_all add: u)
  have 1: "render_maps ?u = LocationAccessDenied (Some ''Geolocation is not supported by your browser.'')"
    using fu denied_inv_render [of ?u] by (simp add: shown_error_def mount_unsupported)
  have 2: "location_calls ?u = []"
    using fu by (simp add: mount_unsupported)
  have 3: "list_all (\<lambda>e. \<not> permission_change e) evs \<longrightarrow>
        render_maps ?d = LocationAccessDenied None
        \<and> render_maps ?d \<noteq> render_maps ?u
        \<and> location_calls ?d = [PermissionsQuery]"
  proof
    assume a: "list_all (\<lambda>e. \<not> permission_change e) evs"
    have "denied_inv (mount (QueryResolved PermissionDenied) w)"
      by (simp add: mount_denied denied_inv_def)
    then have fd: "denied_inv ?d \<and> error_maps ?d = error_maps (mount (QueryResolved PermissionDenied) w)
      \<and> location_calls ?d = location_calls (mount (QueryResolved PermissionDenied) w)"
      using a by (intro foldl_maps_denied_inv) simp_all
    have r: "render_maps ?d = LocationAccessDenied None"
      using fd denied_inv_render [of ?d] by (simp add: shown_error_def mount_denied)
    moreover have "render_maps ?d \<noteq> render_maps ?u"
      by (simp add: r 1)
    moreover have "location_calls ?d = [PermissionsQuery]"
      using fd by (simp add: mount_denied)
    ultimately show "render_maps ?d = LocationAccessDenied None
        \<and> render_maps ?d \<noteq> render_maps ?u
        \<and> location_calls ?d = [PermissionsQuery]"
      by (intro conjI)
  qed
  have 4: "locationPermission s = Denied \<and> list_all (\<lambda>e. \<not> permission_change e) evs \<longrightarrow>
        locationPermission (foldl step_maps s evs) = Denied
        \<and> filter is_request (location_calls (foldl step_maps s evs))
            = filter is_request (location_calls s)
        \<and> set (controls (render_maps (foldl step_maps s evs))) \<subseteq> {BackButton}"
  proof
    assume a: "locationPermission s = Denied \<and> list_all (\<lambda>e. \<not> permission_change e) evs"
    then have d: "locationPermission (foldl step_maps s evs) = Denied
      \<and> filter is_request (location_calls (foldl step_maps s evs)) = filter is_request (location_calls s)"
      using foldl_maps_denied [of s evs] by blast
    then show "locationPermission (foldl step_maps s evs) = Denied
        \<and> filter is_request (location_calls (foldl step_maps s evs))
            = filter is_request (location_calls s)
        \<and> set (controls (render_maps (foldl step_maps s evs))) \<subseteq> {BackButton}"
      using render_denied [of "foldl step_maps s evs"] by blast
  qed
  from 1 2 3 4 show ?thesis by (intro conjI)
qed

theorem denied_is_terminal_witness:
  "locationPermission (mount (QueryResolved PermissionDenied) 1) = Denied
   \<and> list_all (\<lambda>e. \<not> permission_change e) [Clicked EnableLocationButton, PositionFailed, Clicked BackButton]
   \<and> render_maps (foldl step_maps (mount (QueryResolved PermissionDenied) 1)
        [Clicked EnableLocationButton, PositionFailed, Clicked BackButton]) = LocationAccessDenied None
   \<and> locationPermission (foldl step_maps (mount (QueryResolved PermissionDenied) 1)
        [Clicked EnableLocationButton, PositionFailed, Clicked BackButton]) = Denied
   \<and> location_calls (foldl step_maps (mount (QueryResolved PermissionDenied) 1)
        [Clicked EnableLocationButton, PositionFailed, Clicked BackButton]) = [PermissionsQuery]"
proof -
  have d: "locationPermission (mount (QueryResolved PermissionDenied) 1) = Denied"
    by (simp add: mount_denied)
  have a: "list_all (\<lambda>e. \<not> permission_change e)
      [Clicked EnableLocationButton, PositionFailed, Clicked BackButton]"
    by simp
  note t = denied_is_terminal [of 1 "[Clicked EnableLocationButton, PositionFailed, Clicked BackButton]"
      "mount (QueryResolved PermissionDenied) 1"]
  have r0: "render_maps (foldl step_maps (mount (QueryResolved PermissionDenied) 1)
        [Clicked EnableLocationButton, PositionFailed, Clicked BackButton]) = LocationAccessDenied None"
    using t a by blast
  have r1: "locationPermission (foldl step_maps (mount (QueryResolved PermissionDenied) 1)
        [Clicked EnableLocationButton, PositionFailed, Clicked BackButton]) = Denied"
    using t d a by blast
  have r2: "location_calls (foldl step_maps (mount (QueryResolved PermissionDenied) 1)
        [Clicked EnableLocationButton, PositionFailed, Clicked BackButton]) = [PermissionsQuery]"
    using t a by blast
  show ?thesis by (intro conjI d a r0 r1 r2)
qed

end
